theory Spec2Isabelle
  imports Complex_Main "HOL-Library.Word"
begin

section \<open>Data model of pkg/rtc/webrtctransport.go\<close>

text \<open>
  The Go values the transport handles, as the source declares them.  Stream
  identifiers are \<open>uint32\<close>, payload types \<open>uint8\<close>, sequence numbers
  \<open>uint16\<close>, the byte rate \<open>uint64\<close>: all machine words, so that
  arithmetic wraps as it does in Go.
\<close>

text \<open>The package's error values (\<open>errors.New\<close> in the \<open>var\<close> block), the
  error \<open>AnswerPublish\<close> makes for nil options, and errors of the pion library.\<close>

datatype error =
    errChanClosed
  | errInvalidTrack
  | errInvalidPacket
  | errInvalidOptions
  | errExternal string

text \<open>Run-time panics of Go that the code can reach.\<close>

datatype panic =
    NilDereference
  | CloseOfClosedChannel
  | SendOnClosedChannel
  | InterfaceConversion
  | NegativeWaitGroupCounter

record rtp_Packet =
  SSRC :: "32 word"
  SequenceNumber :: "16 word"
  Payload :: "8 word list"

record NackPair =
  PacketID :: "16 word"
  LostPackets :: "16 word"

record TransportLayerNack =
  SenderSSRC :: "32 word"
  MediaSSRC :: "32 word"
  Nacks :: "NackPair list"

text \<open>The feedback reports the file builds or inspects.  The arguments of
  \<open>PictureLossIndication\<close> are SenderSSRC and MediaSSRC; those of
  \<open>ReceiverEstimatedMaximumBitrate\<close> are SenderSSRC, Bitrate (a \<open>uint64\<close>) and SSRCs.\<close>

datatype rtcp_Packet =
    PictureLossIndication "32 word" "32 word"
  | Nack TransportLayerNack
  | ReceiverEstimatedMaximumBitrate "32 word" "64 word" "32 word list"
  | ReceiverReport
  | SenderReport
  | OtherReport

text \<open>
  \<open>*webrtc.PeerConnection\<close> belongs to the pion library.  The transport only calls
  \<open>Close\<close> and \<open>WriteRTCP\<close> on it, so the handle is modelled by whether it was
  closed and by the log of the packet slices handed to \<open>WriteRTCP\<close>, in call order.
\<close>

record PeerConnection =
  isClosed :: bool
  rtcpOut :: "rtcp_Packet list list"

definition pc_WriteRTCP :: "PeerConnection \<Rightarrow> rtcp_Packet list \<Rightarrow> PeerConnection" where
  "pc_WriteRTCP c pkts = c\<lparr>rtcpOut := rtcpOut c @ [pkts]\<rparr>"

text \<open>\<open>*webrtc.Track\<close>, also the library's: its payload type, its stream
  identifier and the packets it was given.\<close>

record Track =
  PayloadType :: "8 word"
  trackSSRC :: "32 word"
  rtpWritten :: "rtp_Packet list"

text \<open>A Go channel: its buffer, its capacity, and whether it was closed.\<close>

record 'a chan =
  buf :: "'a list"
  cap :: nat
  closed :: bool

definition make_chan :: "nat \<Rightarrow> 'a chan" where
  "make_chan n = \<lparr>buf = [], cap = n, closed = False\<rparr>"

text \<open>
  \<open>type WebRTCTransport struct\<close>.  \<open>pc\<close> is a pointer and starts nil
  (\<open>None\<close>); \<open>track\<close> is a Go map; \<open>wg\<close> is the counter of the
  \<open>sync.WaitGroup\<close>; \<open>ssrcPT\<close> is a Go map, which is a reference: the field
  holds the address of the table in a store of tables (see \<open>SSRCPT\<close>).  The two
  mutexes guard single reads and writes and have no state between calls.  The field
  \<open>id\<close> is named \<open>tid\<close> here.
\<close>

record WebRTCTransport =
  tid :: string
  pc :: "PeerConnection option"
  track :: "32 word \<rightharpoonup> Track"
  stopCh :: "unit chan"
  pliCh :: "int chan"
  rtpCh :: "rtp_Packet chan"
  wg :: int
  ssrcPT :: nat
  byteRate :: "64 word"
  isLostPacket :: bool
  hasVideo :: bool
  hasAudio :: bool
  hasScreen :: bool
  errCount :: int

section \<open>sendNack\<close>

text \<open>
  \<^verbatim>\<open>
  func (t *WebRTCTransport) sendNack(nack *rtcp.TransportLayerNack) {
      if t.pc == nil { return }
      t.isLostPacket = true
      t.pc.WriteRTCP([]rtcp.Packet{nack})
  }
  \<close>
\<close>

definition sendNack :: "WebRTCTransport \<Rightarrow> TransportLayerNack \<Rightarrow> WebRTCTransport" where
  "sendNack t nack =
     (case pc t of
        None \<Rightarrow> t
      | Some c \<Rightarrow> t\<lparr>pc := Some (pc_WriteRTCP c [Nack nack]), isLostPacket := True\<rparr>)"

section \<open>WriteRTP\<close>

text \<open>
  \<^verbatim>\<open>
  func (t *WebRTCTransport) WriteRTP(pkt *rtp.Packet) error {
      if pkt == nil { return errInvalidPacket }
      t.trackLock.RLock()
      track := t.track[pkt.SSRC]
      t.trackLock.RUnlock()
      if track != nil { return track.WriteRTP(pkt) }
      return errInvalidTrack
  }
  \<close>
  \<open>track.WriteRTP\<close> is the library's: it is the parameter \<open>twr\<close>, which gives
  the error it returns (\<open>None\<close> for nil) and the track afterwards.
\<close>

definition WriteRTP ::
  "(Track \<Rightarrow> rtp_Packet \<Rightarrow> error option \<times> Track) \<Rightarrow> WebRTCTransport \<Rightarrow> rtp_Packet option
     \<Rightarrow> error option \<times> WebRTCTransport" where
  "WriteRTP twr t pkt =
     (case pkt of
        None \<Rightarrow> (Some errInvalidPacket, t)
      | Some p \<Rightarrow>
          (case track t (SSRC p) of
             Some tr \<Rightarrow>
               (case twr tr p of (e, tr') \<Rightarrow> (e, t\<lparr>track := (track t)(SSRC p \<mapsto> tr')\<rparr>))
           | None \<Rightarrow> (Some errInvalidTrack, t)))"

text \<open>A track that accepts every packet, for concrete runs.\<close>

definition track_accept :: "Track \<Rightarrow> rtp_Packet \<Rightarrow> error option \<times> Track" where
  "track_accept tr p = (None, tr\<lparr>rtpWritten := rtpWritten tr @ [p]\<rparr>)"

text \<open>\<open>newWebRTCTransport\<close>: empty maps, fresh channels (\<open>rtpCh\<close> with room for
  1000 packets), everything else Go's zero value.  \<open>a\<close> is the address of the fresh
  \<open>ssrcPT\<close> table.\<close>

definition newWebRTCTransport :: "string \<Rightarrow> nat \<Rightarrow> WebRTCTransport" where
  "newWebRTCTransport i a =
     \<lparr>tid = i, pc = None, track = Map.empty,
      stopCh = make_chan 0, pliCh = make_chan 0, rtpCh = make_chan 1000,
      wg = 0, ssrcPT = a, byteRate = 0, isLostPacket = False,
      hasVideo = False, hasAudio = False, hasScreen = False, errCount = 0\<rparr>"

section \<open>Close\<close>

text \<open>
  \<^verbatim>\<open>
  func (t *WebRTCTransport) Close() {
      // close pc first, otherwise remoteTrack.ReadRTP will be blocked
      t.pc.Close()
      // close stopCh before rtpCh, otherwise panic: send on closed channel
      close(t.stopCh)
      t.wg.Wait()
      close(t.rtpCh)
      close(t.pliCh)
  }
  \<close>
  The body is five statements.  Each is an operation with its own meaning on the
  transport: \<open>t.pc.Close()\<close> dereferences \<open>t.pc\<close> (a nil pointer panics) and
  marks the connection closed (the library's Close may be repeated); \<open>close(ch)\<close>
  panics on a channel that is closed already; \<open>t.wg.Wait()\<close> goes on when the
  counter is zero and blocks otherwise.
\<close>

datatype close_op = PcClose | CloseStopCh | WgWait | CloseRtpCh | ClosePliCh

datatype status = Completed | Panics panic | Blocks

definition close_chan :: "'a chan \<Rightarrow> panic + 'a chan" where
  "close_chan ch = (if closed ch then Inl CloseOfClosedChannel else Inr (ch\<lparr>closed := True\<rparr>))"

fun exec_close_op :: "close_op \<Rightarrow> WebRTCTransport \<Rightarrow> WebRTCTransport \<times> status" where
  "exec_close_op PcClose t =
     (case pc t of
        None \<Rightarrow> (t, Panics NilDereference)
      | Some c \<Rightarrow> (t\<lparr>pc := Some (c\<lparr>isClosed := True\<rparr>)\<rparr>, Completed))"
| "exec_close_op CloseStopCh t =
     (case close_chan (stopCh t) of
        Inl p \<Rightarrow> (t, Panics p)
      | Inr ch \<Rightarrow> (t\<lparr>stopCh := ch\<rparr>, Completed))"
| "exec_close_op WgWait t = (if wg t = 0 then (t, Completed) else (t, Blocks))"
| "exec_close_op CloseRtpCh t =
     (case close_chan (rtpCh t) of
        Inl p \<Rightarrow> (t, Panics p)
      | Inr ch \<Rightarrow> (t\<lparr>rtpCh := ch\<rparr>, Completed))"
| "exec_close_op ClosePliCh t =
     (case close_chan (pliCh t) of
        Inl p \<Rightarrow> (t, Panics p)
      | Inr ch \<Rightarrow> (t\<lparr>pliCh := ch\<rparr>, Completed))"

text \<open>Running statements in sequence, with nothing else running in between: the
  statements that completed (in order), the transport where the run stopped, and
  how it stopped.\<close>

fun run_close :: "close_op list \<Rightarrow> WebRTCTransport \<Rightarrow> close_op list \<times> WebRTCTransport \<times> status" where
  "run_close [] t = ([], t, Completed)"
| "run_close (x # xs) t =
     (case exec_close_op x t of
        (t', Completed) \<Rightarrow> (case run_close xs t' of (done, r) \<Rightarrow> (x # done, r))
      | (t', st) \<Rightarrow> ([], t', st))"

definition Close_body :: "close_op list" where
  "Close_body = [PcClose, CloseStopCh, WgWait, CloseRtpCh, ClosePliCh]"

definition Close :: "WebRTCTransport \<Rightarrow> close_op list \<times> WebRTCTransport \<times> status" where
  "Close t = run_close Close_body t"

text \<open>How far teardown has got, read off the transport alone: the order the source
  wants is connection, then shutdown signal, then (loops done) packet channel, then
  keyframe channel.\<close>

definition teardown_ordered :: "WebRTCTransport \<Rightarrow> bool" where
  "teardown_ordered t =
     ((if closed (pliCh t) then closed (rtpCh t) else True) \<and>
      (if closed (rtpCh t) then closed (stopCh t) \<and> wg t = 0 else True) \<and>
      (if closed (stopCh t) then (case pc t of None \<Rightarrow> False | Some c \<Rightarrow> isClosed c) else True))"

text \<open>A transport after a successful negotiation and before \<open>Close\<close>: it has a
  connection and its three channels are open.\<close>

definition live :: "WebRTCTransport \<Rightarrow> bool" where
  "live t = (pc t \<noteq> None \<and> \<not> closed (stopCh t) \<and> \<not> closed (rtpCh t) \<and> \<not> closed (pliCh t))"

definition live_example :: WebRTCTransport where
  "live_example = (newWebRTCTransport ''t1'' 0)\<lparr>pc := Some \<lparr>isClosed = False, rtcpOut = []\<rparr>\<rparr>"

section \<open>AnswerPublish: the media engine\<close>

text \<open>
  \<^verbatim>\<open>
  func (t *WebRTCTransport) AnswerPublish(rid string, offer ..., options map[string]interface{}, fn ...) (...) {
      if options == nil {
          return webrtc.SessionDescription{}, errors.New("invalid options")
      }
      mediaEngine := webrtc.MediaEngine{}
      mediaEngine.RegisterCodec(webrtc.NewRTPOpusCodec(webrtc.DefaultPayloadTypeOpus, 48000))
      // only register one video codec which client need
      if codec, ok := options["codec"]; ok {
          codecStr := codec.(string)
          if strings.EqualFold(codecStr, "h264") {
              mediaEngine.RegisterCodec(webrtc.NewRTPH264Codec(webrtc.DefaultPayloadTypeH264, 90000))
          } else if strings.EqualFold(codecStr, "vp9") {
              mediaEngine.RegisterCodec(webrtc.NewRTPVP9Codec(webrtc.DefaultPayloadTypeVP9, 90000))
          } else {
              mediaEngine.RegisterCodec(webrtc.NewRTPVP8Codec(webrtc.DefaultPayloadTypeVP8, 90000))
          }
      }
      ...
  \<close>
  The options are a Go map from strings to \<open>interface{}\<close> values; a nil map is
  \<open>None\<close>.  The media engine is the list of codecs registered, in order.  The type
  assertion \<open>codec.(string)\<close> panics on a value that is not a string.
\<close>

datatype go_value = VString string | VBool bool | VOther

text \<open>A codec as the library's constructors make it: payload type and clock rate.\<close>

datatype RTPCodec =
    RTPOpusCodec "8 word" nat
  | RTPH264Codec "8 word" nat
  | RTPVP8Codec "8 word" nat
  | RTPVP9Codec "8 word" nat

text \<open>The payload types of pion/webrtc v2 (\<open>DefaultPayloadTypeOpus\<close> and the others).\<close>

definition DefaultPayloadTypeOpus :: "8 word" where "DefaultPayloadTypeOpus = 111"
definition DefaultPayloadTypeVP8 :: "8 word" where "DefaultPayloadTypeVP8 = 96"
definition DefaultPayloadTypeVP9 :: "8 word" where "DefaultPayloadTypeVP9 = 98"
definition DefaultPayloadTypeH264 :: "8 word" where "DefaultPayloadTypeH264 = 102"

text \<open>
  \<open>strings.EqualFold\<close> compares under Unicode simple case folding.  It is called
  here with the constants "h264" and "vp9" only; no character outside ASCII folds to
  one of their letters, so for these the comparison is that of the bytes with the
  ASCII capitals lowered.
\<close>

definition toLowerASCII :: "char \<Rightarrow> char" where
  "toLowerASCII c =
     (if (65::nat) \<le> of_char c \<and> of_char c \<le> (90::nat) then char_of (of_char c + (32::nat)) else c)"

definition EqualFold :: "string \<Rightarrow> string \<Rightarrow> bool" where
  "EqualFold s t = (map toLowerASCII s = map toLowerASCII t)"

datatype 'a go_result = Ok 'a | Err error | Panic panic

definition AnswerPublish_mediaEngine :: "(string \<rightharpoonup> go_value) option \<Rightarrow> RTPCodec list go_result" where
  "AnswerPublish_mediaEngine options =
     (case options of
        None \<Rightarrow> Err errInvalidOptions
      | Some opts \<Rightarrow>
          (case opts ''codec'' of
             None \<Rightarrow> Ok [RTPOpusCodec DefaultPayloadTypeOpus 48000]
           | Some (VString codecStr) \<Rightarrow>
               Ok [RTPOpusCodec DefaultPayloadTypeOpus 48000,
                   if EqualFold codecStr ''h264'' then RTPH264Codec DefaultPayloadTypeH264 90000
                   else if EqualFold codecStr ''vp9'' then RTPVP9Codec DefaultPayloadTypeVP9 90000
                   else RTPVP8Codec DefaultPayloadTypeVP8 90000]
           | Some _ \<Rightarrow> Panic InterfaceConversion))"

text \<open>The capability flags, set right after (\<open>options["video"].(bool)\<close> with the
  comma-ok form: a missing key or a value that is not a bool leaves the flag).\<close>

definition AnswerPublish_flags :: "WebRTCTransport \<Rightarrow> (string \<rightharpoonup> go_value) \<Rightarrow> WebRTCTransport" where
  "AnswerPublish_flags t opts =
     t\<lparr>hasVideo := (case opts ''video'' of Some (VBool v) \<Rightarrow> v | _ \<Rightarrow> hasVideo t),
       hasAudio := (case opts ''audio'' of Some (VBool a) \<Rightarrow> a | _ \<Rightarrow> hasAudio t),
       hasScreen := (case opts ''screen'' of Some (VBool s) \<Rightarrow> s | _ \<Rightarrow> hasScreen t)\<rparr>"

section \<open>SSRCPT and the table it returns\<close>

text \<open>
  \<^verbatim>\<open>
  func (t *WebRTCTransport) SSRCPT() map[uint32]uint8 {
      t.ssrcPTLock.RLock()
      defer t.ssrcPTLock.RUnlock()
      return t.ssrcPT
  }
  \<close>
  A Go map value is a reference to the table.  The store gives the table at each
  address (a fresh one is empty); the field \<open>ssrcPT\<close> and the value \<open>SSRCPT\<close>
  returns are addresses.  \<open>table_at st r\<close> is what a holder of \<open>r\<close> reads.
  The writer is the \<open>OnTrack\<close> callback of \<open>AnswerPublish\<close>:
  \<^verbatim>\<open>
      t.ssrcPTLock.Lock()
      t.ssrcPT[remoteTrack.SSRC()] = remoteTrack.PayloadType()
      t.ssrcPTLock.Unlock()
  \<close>
\<close>

type_synonym table_store = "nat \<Rightarrow> (32 word \<rightharpoonup> 8 word)"

definition table_at :: "table_store \<Rightarrow> nat \<Rightarrow> (32 word \<rightharpoonup> 8 word)" where
  "table_at st r = st r"

definition SSRCPT :: "WebRTCTransport \<Rightarrow> nat" where
  "SSRCPT t = ssrcPT t"

definition OnTrack_register :: "table_store \<Rightarrow> WebRTCTransport \<Rightarrow> 32 word \<Rightarrow> 8 word \<Rightarrow> table_store" where
  "OnTrack_register st t ssrc pt = st(ssrcPT t := (st (ssrcPT t))(ssrc \<mapsto> pt))"

definition empty_store :: table_store where
  "empty_store = (\<lambda>a. Map.empty)"

section \<open>subReadRTCP: retransmission requests\<close>

text \<open>
  Modelled from the spec: the Forwarding Pipeline (\<open>pipeline\<close>, with
  \<open>getPipeline\<close>, \<open>writePacket\<close> and \<open>getPub\<close>), which \<open>subReadRTCP\<close>
  calls and whose file is not among the sources.  The spec (4.3): the pipeline owns one
  publisher transport reference, nullable until negotiated, and a retransmit cache
  keyed by (stream identifier, sequence number); \<open>writeCachedOrForwardToPublisher
  (streamId, sequence)\<close> "serves a retransmission request from the cache when
  present; otherwise reports a cache miss so the caller can escalate toward the
  publisher".  \<open>replayed\<close> logs what was served: the subscriber the packet went to
  and the packet.
\<close>

record pipeline =
  pub :: "WebRTCTransport option"
  cache :: "32 word \<times> 16 word \<rightharpoonup> rtp_Packet"
  replayed :: "(string \<times> rtp_Packet) list"







text \<open>What the claim expects of a request with the sequence numbers \<open>sns\<close>: the
  replays (cache hits) and the requests forwarded to the publisher (cache misses).\<close>

definition nack_replays :: "pipeline \<Rightarrow> string \<Rightarrow> 32 word \<Rightarrow> 16 word list \<Rightarrow> (string \<times> rtp_Packet) list" where
  "nack_replays p sid ssrc sns = List.map_filter (\<lambda>sn. map_option (Pair sid) (cache p (ssrc, sn))) sns"

definition nack_forwards :: "pipeline \<Rightarrow> TransportLayerNack \<Rightarrow> 16 word list \<Rightarrow> rtcp_Packet list list" where
  "nack_forwards p nack sns =
     map (\<lambda>sn. [Nack \<lparr>SenderSSRC = SenderSSRC nack, MediaSSRC = MediaSSRC nack,
                       Nacks = [\<lparr>PacketID = sn, LostPackets = 0\<rparr>]\<rparr>])
         (filter (\<lambda>sn. cache p (MediaSSRC nack, sn) = None) sns)"

text \<open>The pipeline after the loop, written out.\<close>

definition nack_result ::
  "pipeline \<Rightarrow> WebRTCTransport \<Rightarrow> PeerConnection \<Rightarrow> string \<Rightarrow> TransportLayerNack \<Rightarrow> 16 word list \<Rightarrow> pipeline" where
  "nack_result p pt c sid nack sns =
     p\<lparr>pub := Some (pt\<lparr>pc := Some (c\<lparr>rtcpOut := rtcpOut c @ nack_forwards p nack sns\<rparr>),
                       isLostPacket := (if nack_forwards p nack sns = [] then isLostPacket pt else True)\<rparr>),
       replayed := replayed p @ nack_replays p sid (MediaSSRC nack) sns\<rparr>"


section \<open>float64\<close>

text \<open>
  \<open>sendREMB\<close> computes with \<open>float64\<close>.  A value of the type is a number (the two
  zeros are not told apart: the code only compares and multiplies), an infinity, or
  NaN.  An operation gives the exact result rounded to the nearest number with 53
  significant bits, ties to the even one (IEEE 754 binary64): \<open>expo x\<close> is the
  binary exponent of a positive \<open>x\<close>, \<open>ulp_exp x\<close> the exponent of the unit in its
  last place (at least -1074, where the subnormal numbers are), and a result of
  magnitude 2^1024 or more is an infinity.
\<close>

datatype float64 = Fin real | PInf | NInf | NaN

function expo_up :: "real \<Rightarrow> int" where
  "expo_up x = (if x < 2 then 0 else 1 + expo_up (x / 2))"
  by pat_completeness auto
termination
proof (relation "measure (\<lambda>x. nat \<lfloor>x\<rfloor>)")
  show "wf (measure (\<lambda>x::real. nat \<lfloor>x\<rfloor>))" by simp
next
  fix x :: real
  assume "\<not> x < 2"
  then have "x / 2 \<le> x - 1" by simp
  then have "\<lfloor>x / 2\<rfloor> \<le> \<lfloor>x - 1\<rfloor>" by (rule floor_mono)
  moreover have "2 \<le> \<lfloor>x\<rfloor>" using \<open>\<not> x < 2\<close> by (simp add: le_floor_iff)
  ultimately show "(x / 2, x) \<in> measure (\<lambda>x. nat \<lfloor>x\<rfloor>)" by simp
qed

function expo_down :: "real \<Rightarrow> int" where
  "expo_down x = (if x \<le> 0 \<or> 1 \<le> x then 0 else expo_down (2 * x) - 1)"
  by pat_completeness auto
termination
proof (relation "measure (\<lambda>x. nat \<lfloor>1 / x\<rfloor>)")
  show "wf (measure (\<lambda>x::real. nat \<lfloor>1 / x\<rfloor>))" by simp
next
  fix x :: real
  assume "\<not> (x \<le> 0 \<or> 1 \<le> x)"
  then have x: "0 < x" "x < 1" by simp_all
  then have "1 < 1 / x" by simp
  then have f1: "1 \<le> \<lfloor>1 / x\<rfloor>" by (simp add: le_floor_iff)
  have "\<lfloor>1 / (2 * x)\<rfloor> < \<lfloor>1 / x\<rfloor>"
  proof (cases "2 \<le> 1 / x")
    case True
    then have "1 / (2 * x) \<le> 1 / x - 1" using x by (simp add: field_simps)
    then have "\<lfloor>1 / (2 * x)\<rfloor> \<le> \<lfloor>1 / x - 1\<rfloor>" by (rule floor_mono)
    then show ?thesis by simp
  next
    case False
    then have "1 / (2 * x) < 1" using x by (simp add: field_simps)
    then have "\<lfloor>1 / (2 * x)\<rfloor> < 1" by (simp add: floor_less_iff)
    with f1 show ?thesis by linarith
  qed
  with f1 show "(2 * x, x) \<in> measure (\<lambda>x. nat \<lfloor>1 / x\<rfloor>)" by simp
qed

declare expo_up.simps [simp del] expo_down.simps [simp del]

definition expo :: "real \<Rightarrow> int" where
  "expo x = (if 1 \<le> x then expo_up x else expo_down x)"

definition round_even :: "real \<Rightarrow> int" where
  "round_even x =
     (if x - of_int \<lfloor>x\<rfloor> < 1 / 2 then \<lfloor>x\<rfloor>
      else if 1 / 2 < x - of_int \<lfloor>x\<rfloor> then \<lfloor>x\<rfloor> + 1
      else if even \<lfloor>x\<rfloor> then \<lfloor>x\<rfloor> else \<lfloor>x\<rfloor> + 1)"

definition ulp_exp :: "real \<Rightarrow> int" where
  "ulp_exp x = max (expo x) (- 1022) - 52"

definition round_pos :: "real \<Rightarrow> real" where
  "round_pos x = of_int (round_even (x / 2 powi ulp_exp x)) * 2 powi ulp_exp x"

definition round_f64 :: "real \<Rightarrow> float64" where
  "round_f64 x =
     (if x = 0 then Fin 0
      else if 0 < x then (if round_pos x < 2 ^ 1024 then Fin (round_pos x) else PInf)
      else (if round_pos (- x) < 2 ^ 1024 then Fin (- round_pos (- x)) else NInf))"

text \<open>The values of the type: the numbers that rounding leaves as they are.\<close>

definition is_float64 :: "real \<Rightarrow> bool" where
  "is_float64 x = (round_f64 x = Fin x)"

text \<open>Subtraction and multiplication; comparisons, which are all false on NaN.\<close>

fun f64_sub :: "float64 \<Rightarrow> float64 \<Rightarrow> float64" where
  "f64_sub (Fin a) (Fin b) = round_f64 (a - b)"
| "f64_sub NaN y = NaN"
| "f64_sub x NaN = NaN"
| "f64_sub PInf PInf = NaN"
| "f64_sub NInf NInf = NaN"
| "f64_sub PInf y = PInf"
| "f64_sub NInf y = NInf"
| "f64_sub (Fin a) PInf = NInf"
| "f64_sub (Fin a) NInf = PInf"

fun f64_neg :: "float64 \<Rightarrow> float64" where
  "f64_neg (Fin a) = Fin (- a)"
| "f64_neg PInf = NInf"
| "f64_neg NInf = PInf"
| "f64_neg NaN = NaN"

fun f64_mul :: "float64 \<Rightarrow> float64 \<Rightarrow> float64" where
  "f64_mul (Fin a) (Fin b) = round_f64 (a * b)"
| "f64_mul NaN y = NaN"
| "f64_mul x NaN = NaN"
| "f64_mul (Fin a) y = (if a = 0 then NaN else if 0 < a then y else f64_neg y)"
| "f64_mul x (Fin b) = (if b = 0 then NaN else if 0 < b then x else f64_neg x)"
| "f64_mul PInf y = y"
| "f64_mul NInf y = f64_neg y"

fun f64_lt :: "float64 \<Rightarrow> float64 \<Rightarrow> bool" where
  "f64_lt (Fin a) (Fin b) = (a < b)"
| "f64_lt NaN y = False"
| "f64_lt x NaN = False"
| "f64_lt x NInf = False"
| "f64_lt PInf y = False"
| "f64_lt NInf y = True"
| "f64_lt (Fin a) PInf = True"

fun f64_eq :: "float64 \<Rightarrow> float64 \<Rightarrow> bool" where
  "f64_eq (Fin a) (Fin b) = (a = b)"
| "f64_eq PInf PInf = True"
| "f64_eq NInf NInf = True"
| "f64_eq x y = False"

definition f64_le :: "float64 \<Rightarrow> float64 \<Rightarrow> bool" where
  "f64_le x y = (f64_lt x y \<or> f64_eq x y)"

text \<open>
  Conversions.  \<open>float64(n)\<close> of a \<open>uint64\<close> rounds.  \<open>uint64(x)\<close> discards the
  fraction; when the value does not fit (NaN and the infinities included) Go leaves
  the result to the implementation: it is the parameter \<open>impl\<close>.
\<close>

definition uint64_to_f64 :: "64 word \<Rightarrow> float64" where
  "uint64_to_f64 n = round_f64 (real (unat n))"

definition f64_to_uint64 :: "64 word \<Rightarrow> float64 \<Rightarrow> 64 word" where
  "f64_to_uint64 impl x =
     (case x of
        Fin r \<Rightarrow> if - 1 < r \<and> r < 2 ^ 64 then word_of_int (if r < 0 then 0 else \<lfloor>r\<rfloor>) else impl
      | _ \<Rightarrow> impl)"

text \<open>The constant \<open>0.1\<close> of the source, as a \<open>float64\<close>.\<close>

definition f64_0_1 :: float64 where
  "f64_0_1 = round_f64 (1 / 10)"

section \<open>sendREMB\<close>

text \<open>
  \<^verbatim>\<open>
  const ( rembLowBW = 30 * 1000; rembHighBW = 100 * 1000 )

  func (t *WebRTCTransport) sendREMB(lostRate float64) {
      if lostRate > 1 || lostRate < 0 { return }
      var videoSSRC uint32
      t.trackLock.RLock()
      for ssrc, track := range t.track {
          if track.PayloadType() == webrtc.DefaultPayloadTypeVP8 ||
              track.PayloadType() == webrtc.DefaultPayloadTypeH264 ||
              track.PayloadType() == webrtc.DefaultPayloadTypeVP9 {
              videoSSRC = ssrc
          }
      }
      t.trackLock.RUnlock()
      var bw uint64
      if lostRate == 0 && t.byteRate == 0 {
          bw = rembHighBW
      } else if lostRate >= 0 && lostRate < 0.1 {
          bw = t.byteRate * 2
      } else {
          bw = uint64(float64(t.byteRate) * (1 - lostRate))
      }
      if bw < rembLowBW { bw = rembLowBW }
      if bw > rembHighBW { bw = rembHighBW }
      remb := &rtcp.ReceiverEstimatedMaximumBitrate{
          SenderSSRC: videoSSRC, Bitrate: bw * 8, SSRCs: []uint32{videoSSRC} }
      t.pc.WriteRTCP([]rtcp.Packet{remb})
  }
  \<close>
  Go ranges over a map in an order of its choosing: \<open>ks\<close> is the order of the keys
  in this run.  \<open>t.pc.WriteRTCP\<close> dereferences \<open>t.pc\<close>.
\<close>

definition rembLowBW :: "64 word" where "rembLowBW = 30 * 1000"
definition rembHighBW :: "64 word" where "rembHighBW = 100 * 1000"

definition sendREMB_videoSSRC :: "(32 word \<rightharpoonup> Track) \<Rightarrow> 32 word list \<Rightarrow> 32 word" where
  "sendREMB_videoSSRC tracks ks =
     foldl (\<lambda>videoSSRC ssrc.
              case tracks ssrc of
                None \<Rightarrow> videoSSRC
              | Some tr \<Rightarrow>
                  if PayloadType tr = DefaultPayloadTypeVP8 \<or>
                     PayloadType tr = DefaultPayloadTypeH264 \<or>
                     PayloadType tr = DefaultPayloadTypeVP9
                  then ssrc else videoSSRC)
           0 ks"

definition sendREMB_proposal :: "64 word \<Rightarrow> 64 word \<Rightarrow> float64 \<Rightarrow> 64 word" where
  "sendREMB_proposal impl rate lostRate =
     (if f64_eq lostRate (Fin 0) \<and> rate = 0 then rembHighBW
      else if f64_le (Fin 0) lostRate \<and> f64_lt lostRate f64_0_1 then rate * 2
      else f64_to_uint64 impl (f64_mul (uint64_to_f64 rate) (f64_sub (Fin 1) lostRate)))"

definition sendREMB_clamp :: "64 word \<Rightarrow> 64 word" where
  "sendREMB_clamp bw0 =
     (let bw1 = (if bw0 < rembLowBW then rembLowBW else bw0)
      in if bw1 > rembHighBW then rembHighBW else bw1)"

definition sendREMB_bw :: "64 word \<Rightarrow> 64 word \<Rightarrow> float64 \<Rightarrow> 64 word" where
  "sendREMB_bw impl rate lostRate = sendREMB_clamp (sendREMB_proposal impl rate lostRate)"

definition sendREMB :: "32 word list \<Rightarrow> 64 word \<Rightarrow> WebRTCTransport \<Rightarrow> float64 \<Rightarrow> WebRTCTransport go_result" where
  "sendREMB ks impl t lostRate =
     (if f64_lt (Fin 1) lostRate \<or> f64_lt lostRate (Fin 0) then Ok t
      else
        (let videoSSRC = sendREMB_videoSSRC (track t) ks;
             bw = sendREMB_bw impl (byteRate t) lostRate
         in case pc t of
              None \<Rightarrow> Panic NilDereference
            | Some c \<Rightarrow>
                Ok (t\<lparr>pc := Some (pc_WriteRTCP c
                      [ReceiverEstimatedMaximumBitrate videoSSRC (bw * 8) [videoSSRC]])\<rparr>)))"

text \<open>
  Where the byte rate comes from: the ticker case of \<open>receiveRTP\<close>,
  \<^verbatim>\<open>
      case <-ticker.C:
          t.byteRate = total / 3
          total = 0
          t.isLostPacket = false
  \<close>
  with \<open>total\<close> a \<open>uint64\<close> (\<open>total3\<close> below: the bytes of the last
  three seconds).  It is the only assignment to \<open>byteRate\<close>, which is
  zero before.
\<close>

definition receiveRTP_tick :: "WebRTCTransport \<Rightarrow> 64 word \<Rightarrow> WebRTCTransport" where
  "receiveRTP_tick t total3 = t\<lparr>byteRate := total3 div 3, isLostPacket := False\<rparr>"

section \<open>The keyframe loops and Close, running together\<close>

text \<open>
  \<^verbatim>\<open>
  func (t *WebRTCTransport) sendPLI() {
      if t.hasVideo || t.hasScreen {
          go func() {
              ticker := time.NewTicker(pliDuration)
              defer ticker.Stop()
              t.wg.Add(1)
              for {
                  select {
                  case <-ticker.C:
                      t.pliCh <- 1
                  case <-t.stopCh:
                      t.wg.Done()
                      return
                  }
              }
          }()
      }
  }
  \<close>
  and, in the \<open>OnTrack\<close> callback of \<open>AnswerPublish\<close>, for a video track:
  \<^verbatim>\<open>
      t.wg.Add(1)
      go func() {
          for {
              select {
              case <-t.pliCh:
                  t.pc.WriteRTCP([]rtcp.Packet{&rtcp.PictureLossIndication{
                      SenderSSRC: remoteTrack.SSRC(), MediaSSRC: remoteTrack.SSRC()}})
              case <-t.stopCh:
                  t.wg.Done()
                  return
              }
          }
      }()
  \<close>
  A goroutine is where it stands in its code.  \<open>SendPLI_start\<close> is the goroutine
  of \<open>sendPLI\<close> before \<open>t.wg.Add(1)\<close>, \<open>SendPLI_select\<close> at its select,
  \<open>SendPLI_send\<close> at the statement \<open>t.pliCh <- 1\<close>, which it has not completed.
  \<open>OnTrack_select ssrc\<close> is the goroutine of \<open>OnTrack\<close> at its select (its
  \<open>wg.Add(1)\<close> ran before it started).  \<open>Closing n\<close> is the caller of \<open>Close\<close>
  before statement \<open>n\<close> of the body.
\<close>

datatype goroutine =
    SendPLI_start
  | SendPLI_select
  | SendPLI_send
  | OnTrack_select "32 word"
  | Closing nat
  | Exited
  | Panicked panic

record system =
  shared :: WebRTCTransport
  procs :: "goroutine list"

text \<open>
  What a goroutine can do next.  \<open>Proceed\<close>: run the next statement.  At a select,
  \<open>Tick\<close> takes the ticker case (time is not modelled: the ticker may have fired)
  and \<open>Stop\<close> the case \<open>\<open><-t.stopCh\<close>\<close>, ready once the channel is closed.
  \<open>Hand j\<close>: the send on the unbuffered \<open>pliCh\<close> meets goroutine \<open>j\<close>, which
  takes \<open>\<open><-t.pliCh\<close>\<close> in its select and writes the keyframe request.
  \<open>RecvClosed\<close>: a receive on the closed \<open>pliCh\<close>, which is always ready.  A send
  on a closed channel panics.  \<open>wg.Done()\<close> panics below zero.
\<close>

datatype choice = Proceed | Tick | Stop | Hand nat | RecvClosed

definition wg_Done :: "system \<Rightarrow> nat \<Rightarrow> system" where
  "wg_Done sys i =
     (if wg (shared sys) - 1 < 0 then sys\<lparr>procs := (procs sys)[i := Panicked NegativeWaitGroupCounter]\<rparr>
      else sys\<lparr>shared := (shared sys)\<lparr>wg := wg (shared sys) - 1\<rparr>,
               procs := (procs sys)[i := Exited]\<rparr>)"

definition write_PLI :: "system \<Rightarrow> nat \<Rightarrow> 32 word \<Rightarrow> system" where
  "write_PLI sys j ssrc =
     (case pc (shared sys) of
        None \<Rightarrow> sys\<lparr>procs := (procs sys)[j := Panicked NilDereference]\<rparr>
      | Some c \<Rightarrow>
          sys\<lparr>shared := (shared sys)\<lparr>pc := Some (pc_WriteRTCP c [PictureLossIndication ssrc ssrc])\<rparr>\<rparr>)"

fun goroutine_step :: "system \<Rightarrow> nat \<Rightarrow> goroutine \<Rightarrow> choice \<Rightarrow> system option" where
  "goroutine_step sys i SendPLI_start Proceed =
     Some (sys\<lparr>shared := (shared sys)\<lparr>wg := wg (shared sys) + 1\<rparr>,
               procs := (procs sys)[i := SendPLI_select]\<rparr>)"
| "goroutine_step sys i SendPLI_select Tick =
     Some (sys\<lparr>procs := (procs sys)[i := SendPLI_send]\<rparr>)"
| "goroutine_step sys i SendPLI_select Stop =
     (if closed (stopCh (shared sys)) then Some (wg_Done sys i) else None)"
| "goroutine_step sys i SendPLI_send (Hand j) =
     (if closed (pliCh (shared sys)) \<or> length (procs sys) \<le> j then None
      else (case procs sys ! j of
              OnTrack_select ssrc \<Rightarrow>
                Some (write_PLI (sys\<lparr>procs := (procs sys)[i := SendPLI_select]\<rparr>) j ssrc)
            | _ \<Rightarrow> None))"
| "goroutine_step sys i SendPLI_send Proceed =
     (if closed (pliCh (shared sys))
      then Some (sys\<lparr>procs := (procs sys)[i := Panicked SendOnClosedChannel]\<rparr>)
      else None)"
| "goroutine_step sys i (OnTrack_select ssrc) Stop =
     (if closed (stopCh (shared sys)) then Some (wg_Done sys i) else None)"
| "goroutine_step sys i (OnTrack_select ssrc) RecvClosed =
     (if closed (pliCh (shared sys)) then Some (write_PLI sys i ssrc) else None)"
| "goroutine_step sys i (Closing n) Proceed =
     (if length Close_body \<le> n then None
      else (case exec_close_op (Close_body ! n) (shared sys) of
              (t', Completed) \<Rightarrow>
                Some (sys\<lparr>shared := t',
                          procs := (procs sys)[i := (if Suc n = length Close_body then Exited
                                                    else Closing (Suc n))]\<rparr>)
            | (t', Panics p) \<Rightarrow> Some (sys\<lparr>shared := t', procs := (procs sys)[i := Panicked p]\<rparr>)
            | (t', Blocks) \<Rightarrow> None))"
| "goroutine_step sys i g ch = None"

definition step :: "system \<Rightarrow> nat \<times> choice \<Rightarrow> system option" where
  "step sys a =
     (case a of (i, ch) \<Rightarrow>
        if i < length (procs sys) then goroutine_step sys i (procs sys ! i) ch else None)"

fun run :: "system \<Rightarrow> (nat \<times> choice) list \<Rightarrow> system option" where
  "run sys [] = Some sys"
| "run sys (a # as) = (case step sys a of None \<Rightarrow> None | Some sys' \<Rightarrow> run sys' as)"

text \<open>Every step some goroutine can take; none is left when all are blocked.\<close>

definition all_choices :: "system \<Rightarrow> choice list" where
  "all_choices sys = [Proceed, Tick, Stop, RecvClosed] @ map Hand [0..<length (procs sys)]"

definition enabled :: "system \<Rightarrow> (nat \<times> choice) list" where
  "enabled sys =
     filter (\<lambda>a. step sys a \<noteq> None)
       (concat (map (\<lambda>i. map (Pair i) (all_choices sys)) [0..<length (procs sys)]))"

text \<open>The goroutines \<open>sendPLI\<close> starts.\<close>

definition sendPLI :: "WebRTCTransport \<Rightarrow> goroutine list" where
  "sendPLI t = (if hasVideo t \<or> hasScreen t then [SendPLI_start] else [])"

text \<open>
  A publisher after \<open>AnswerPublish\<close> with the option video = true: it has a
  connection, \<open>sendPLI\<close> has started its goroutine, and no track has arrived yet.
  Then \<open>Close\<close> is called.
\<close>

definition video_publisher :: WebRTCTransport where
  "video_publisher = AnswerPublish_flags live_example [''video'' \<mapsto> VBool True]"

definition closing_video_publisher :: system where
  "closing_video_publisher =
     \<lparr>shared = video_publisher, procs = sendPLI video_publisher @ [Closing 0]\<rparr>"

text \<open>The same with a video track (SSRC 5) discovered: its \<open>OnTrack\<close> goroutine runs.\<close>

definition closing_video_publisher_with_track :: system where
  "closing_video_publisher_with_track =
     \<lparr>shared = video_publisher\<lparr>wg := 2\<rparr>,
      procs = [SendPLI_select, OnTrack_select 5, Closing 0]\<rparr>"

section \<open>Theorems\<close>

subsection \<open>sendNack\<close>

text \<open>
  C10.  With a nil peer connection \<open>sendNack\<close> returns the transport as it was:
  nothing is sent and no field changes.  With a connection it sets
  \<open>isLostPacket\<close>, hands exactly the one-element slice holding the supplied report
  to \<open>WriteRTCP\<close> (after everything written before), and changes nothing else.
\<close>

theorem sendNack_spec:
  "(pc t = None \<longrightarrow> sendNack t nack = t) \<and>
   (\<forall>c. pc t = Some c \<longrightarrow>
      isLostPacket (sendNack t nack) = True \<and>
      (\<exists>c'. pc (sendNack t nack) = Some c' \<and>
            rtcpOut c' = rtcpOut c @ [[Nack nack]] \<and> isClosed c' = isClosed c) \<and>
      sendNack t nack\<lparr>pc := pc t, isLostPacket := isLostPacket t\<rparr> = t)"
  by (auto simp: sendNack_def pc_WriteRTCP_def)

theorem sendNack_spec_witness:
  "sendNack (newWebRTCTransport ''pub'' 0) \<lparr>SenderSSRC = 1, MediaSSRC = 2, Nacks = []\<rparr>
     = newWebRTCTransport ''pub'' 0 \<and>
   isLostPacket (sendNack ((newWebRTCTransport ''pub'' 0)\<lparr>pc := Some \<lparr>isClosed = False, rtcpOut = []\<rparr>\<rparr>)
     \<lparr>SenderSSRC = 1, MediaSSRC = 2, Nacks = [\<lparr>PacketID = 7, LostPackets = 0\<rparr>]\<rparr>) = True \<and>
   (\<exists>c'. pc (sendNack ((newWebRTCTransport ''pub'' 0)\<lparr>pc := Some \<lparr>isClosed = False, rtcpOut = []\<rparr>\<rparr>)
       \<lparr>SenderSSRC = 1, MediaSSRC = 2, Nacks = [\<lparr>PacketID = 7, LostPackets = 0\<rparr>]\<rparr>) = Some c' \<and>
     rtcpOut c' = [[Nack \<lparr>SenderSSRC = 1, MediaSSRC = 2, Nacks = [\<lparr>PacketID = 7, LostPackets = 0\<rparr>]\<rparr>]])"
proof -
  let ?t0 = "newWebRTCTransport ''pub'' 0"
  let ?c = "\<lparr>isClosed = False, rtcpOut = []\<rparr>"
  let ?t1 = "?t0\<lparr>pc := Some ?c\<rparr>"
  let ?n = "\<lparr>SenderSSRC = 1, MediaSSRC = 2, Nacks = [\<lparr>PacketID = 7, LostPackets = 0\<rparr>]\<rparr>"
  have nil: "pc ?t0 = None" by (simp add: newWebRTCTransport_def)
  have live: "pc ?t1 = Some ?c" by simp
  from sendNack_spec [of ?t0 "\<lparr>SenderSSRC = 1, MediaSSRC = 2, Nacks = []\<rparr>"] nil
  have a: "sendNack ?t0 \<lparr>SenderSSRC = 1, MediaSSRC = 2, Nacks = []\<rparr> = ?t0" by blast
  from sendNack_spec [of ?t1 ?n] live
  have b: "isLostPacket (sendNack ?t1 ?n) = True \<and>
      (\<exists>c'. pc (sendNack ?t1 ?n) = Some c' \<and> rtcpOut c' = rtcpOut ?c @ [[Nack ?n]] \<and> isClosed c' = isClosed ?c)"
    by blast
  from a b show ?thesis by auto
qed

subsection \<open>WriteRTP\<close>

text \<open>
  C7.  \<open>WriteRTP\<close> returns \<open>errInvalidPacket\<close> for a nil packet, and
  \<open>errInvalidTrack\<close> when the track table has no entry for the packet's SSRC; in
  both cases the transport is returned as it was, so nothing is delivered and no
  other track is touched.  When the table has a track for the SSRC, the packet is
  handed to exactly that track (the result is the track's own), the tracks of all
  other streams stay as they were, and no other field changes.
\<close>

theorem WriteRTP_spec:
  "WriteRTP twr t None = (Some errInvalidPacket, t) \<and>
   (track t (SSRC p) = None \<longrightarrow> WriteRTP twr t (Some p) = (Some errInvalidTrack, t)) \<and>
   (\<forall>tr. track t (SSRC p) = Some tr \<longrightarrow>
      fst (WriteRTP twr t (Some p)) = fst (twr tr p) \<and>
      track (snd (WriteRTP twr t (Some p))) (SSRC p) = Some (snd (twr tr p)) \<and>
      (\<forall>s. s \<noteq> SSRC p \<longrightarrow> track (snd (WriteRTP twr t (Some p))) s = track t s) \<and>
      (snd (WriteRTP twr t (Some p)))\<lparr>track := track t\<rparr> = t)"
  by (auto simp: WriteRTP_def split: prod.splits)

theorem WriteRTP_spec_witness:
  "WriteRTP track_accept
     ((newWebRTCTransport ''sub'' 0)\<lparr>track := [5 \<mapsto> \<lparr>PayloadType = 96, trackSSRC = 5, rtpWritten = []\<rparr>]\<rparr>)
     (Some \<lparr>SSRC = 6, SequenceNumber = 1, Payload = []\<rparr>)
   = (Some errInvalidTrack,
      (newWebRTCTransport ''sub'' 0)\<lparr>track := [5 \<mapsto> \<lparr>PayloadType = 96, trackSSRC = 5, rtpWritten = []\<rparr>]\<rparr>) \<and>
   fst (WriteRTP track_accept
     ((newWebRTCTransport ''sub'' 0)\<lparr>track := [5 \<mapsto> \<lparr>PayloadType = 96, trackSSRC = 5, rtpWritten = []\<rparr>]\<rparr>)
     (Some \<lparr>SSRC = 5, SequenceNumber = 1, Payload = []\<rparr>)) = None \<and>
   track (snd (WriteRTP track_accept
     ((newWebRTCTransport ''sub'' 0)\<lparr>track := [5 \<mapsto> \<lparr>PayloadType = 96, trackSSRC = 5, rtpWritten = []\<rparr>]\<rparr>)
     (Some \<lparr>SSRC = 5, SequenceNumber = 1, Payload = []\<rparr>))) 5
   = Some \<lparr>PayloadType = 96, trackSSRC = 5, rtpWritten = [\<lparr>SSRC = 5, SequenceNumber = 1, Payload = []\<rparr>]\<rparr>"
proof -
  let ?tr = "\<lparr>PayloadType = 96, trackSSRC = 5, rtpWritten = []\<rparr>"
  let ?t = "(newWebRTCTransport ''sub'' 0)\<lparr>track := [5 \<mapsto> ?tr]\<rparr>"
  let ?p6 = "\<lparr>SSRC = 6, SequenceNumber = 1, Payload = []\<rparr>"
  let ?p5 = "\<lparr>SSRC = 5, SequenceNumber = 1, Payload = []\<rparr>"
  have miss: "track ?t (SSRC ?p6) = None" by simp
  have hit: "track ?t (SSRC ?p5) = Some ?tr" by simp
  from WriteRTP_spec [of track_accept ?t ?p6] miss
  have a: "WriteRTP track_accept ?t (Some ?p6) = (Some errInvalidTrack, ?t)" by blast
  from WriteRTP_spec [of track_accept ?t ?p5] hit
  have b: "fst (WriteRTP track_accept ?t (Some ?p5)) = fst (track_accept ?tr ?p5) \<and>
           track (snd (WriteRTP track_accept ?t (Some ?p5))) (SSRC ?p5) = Some (snd (track_accept ?tr ?p5))"
    by blast
  from a b show ?thesis by (simp add: track_accept_def)
qed

subsection \<open>Close\<close>

lemma run_close_Cons_Completed:
  "exec_close_op x t = (t', Completed) \<Longrightarrow>
   run_close (x # xs) t = (x # fst (run_close xs t'), snd (run_close xs t'))"
  by (simp split: prod.splits)

lemma run_close_Cons_stop:
  "exec_close_op x t = (t', st) \<Longrightarrow> st \<noteq> Completed \<Longrightarrow> run_close (x # xs) t = ([], t', st)"
  by (cases st) simp_all

lemma run_close_done_prefix: "fst (run_close xs t) = take (length (fst (run_close xs t))) xs"
proof (induction xs arbitrary: t)
  case Nil
  show ?case by simp
next
  case (Cons x xs)
  obtain t' st where e: "exec_close_op x t = (t', st)" by (cases "exec_close_op x t")
  show ?case
  proof (cases "st = Completed")
    case True
    with e have "run_close (x # xs) t = (x # fst (run_close xs t'), snd (run_close xs t'))"
      by (simp only: run_close_Cons_Completed)
    with Cons [of t'] show ?thesis by simp
  next
    case False
    from run_close_Cons_stop [OF e False] show ?thesis by simp
  qed
qed

lemma run_close_completed_all:
  "snd (snd (run_close xs t)) = Completed \<Longrightarrow> fst (run_close xs t) = xs"
proof (induction xs arbitrary: t)
  case Nil
  show ?case by simp
next
  case (Cons x xs)
  obtain t' st where e: "exec_close_op x t = (t', st)" by (cases "exec_close_op x t")
  show ?case
  proof (cases "st = Completed")
    case True
    with e have r: "run_close (x # xs) t = (x # fst (run_close xs t'), snd (run_close xs t'))"
      by (simp only: run_close_Cons_Completed)
    with Cons.prems have "snd (snd (run_close xs t')) = Completed" by simp
    from Cons.IH [OF this] r show ?thesis by simp
  next
    case False
    from run_close_Cons_stop [OF e False] Cons.prems False show ?thesis by simp
  qed
qed

lemma Close_live:
  assumes "live t" and "wg t = 0"
  shows "\<exists>c. pc t = Some c \<and>
     Close t = (Close_body,
                t\<lparr>pc := Some (c\<lparr>isClosed := True\<rparr>),
                  stopCh := (stopCh t)\<lparr>closed := True\<rparr>,
                  rtpCh := (rtpCh t)\<lparr>closed := True\<rparr>,
                  pliCh := (pliCh t)\<lparr>closed := True\<rparr>\<rparr>,
                Completed)"
proof -
  from assms(1) obtain c where c: "pc t = Some c" by (auto simp: live_def)
  from assms c have "Close t = (Close_body,
                t\<lparr>pc := Some (c\<lparr>isClosed := True\<rparr>),
                  stopCh := (stopCh t)\<lparr>closed := True\<rparr>,
                  rtpCh := (rtpCh t)\<lparr>closed := True\<rparr>,
                  pliCh := (pliCh t)\<lparr>closed := True\<rparr>\<rparr>,
                Completed)"
    by (simp add: Close_def Close_body_def live_def close_chan_def)
  with c show ?thesis by blast
qed

lemma Close_completed_live:
  assumes "snd (snd (Close t)) = Completed"
  shows "live t \<and> wg t = 0"
proof -
  have p: "pc t \<noteq> None" using assms
    by (cases "pc t") (simp_all add: Close_def Close_body_def)
  then obtain c where c: "pc t = Some c" by blast
  have s: "\<not> closed (stopCh t)" using assms c
    by (cases "closed (stopCh t)") (simp_all add: Close_def Close_body_def close_chan_def)
  have w: "wg t = 0" using assms c s
    by (cases "wg t = 0") (simp_all add: Close_def Close_body_def close_chan_def)
  have r: "\<not> closed (rtpCh t)" using assms c s w
    by (cases "closed (rtpCh t)") (simp_all add: Close_def Close_body_def close_chan_def)
  have l: "\<not> closed (pliCh t)" using assms c s w r
    by (cases "closed (pliCh t)") (simp_all add: Close_def Close_body_def close_chan_def)
  from p s w r l show ?thesis by (simp add: live_def)
qed

lemma take_Close_body_cases:
  "take k Close_body \<in> {[], [PcClose], [PcClose, CloseStopCh], [PcClose, CloseStopCh, WgWait],
      [PcClose, CloseStopCh, WgWait, CloseRtpCh], Close_body}"
proof -
  consider "k = 0" | "k = 1" | "k = 2" | "k = 3" | "k = 4" | "k \<ge> 5" by linarith
  then show ?thesis by cases (auto simp: Close_body_def numeral_eq_Suc)
qed

lemma Close_steps_ordered:
  assumes "live t"
  shows "teardown_ordered (fst (snd (run_close (take k Close_body) t)))"
proof -
  from assms obtain c where c: "pc t = Some c" by (auto simp: live_def)
  have "teardown_ordered (fst (snd (run_close xs t)))"
    if "xs \<in> {[], [PcClose], [PcClose, CloseStopCh], [PcClose, CloseStopCh, WgWait],
      [PcClose, CloseStopCh, WgWait, CloseRtpCh], Close_body}" for xs
  proof (cases "wg t = 0")
    case True
    with that assms c show ?thesis
      by (auto simp: Close_body_def live_def teardown_ordered_def close_chan_def)
  next
    case False
    with that assms c show ?thesis
      by (auto simp: Close_body_def live_def teardown_ordered_def close_chan_def)
  qed
  with take_Close_body_cases show ?thesis by blast
qed

lemma Close_second:
  assumes "snd (snd (Close t)) = Completed"
  shows "Close (fst (snd (Close t))) = ([PcClose], fst (snd (Close t)), Panics CloseOfClosedChannel)"
proof -
  from assms have l: "live t" and w: "wg t = 0" by (simp_all add: Close_completed_live)
  from Close_live [OF l w] obtain c where c: "pc t = Some c" and
    C: "Close t = (Close_body,
                t\<lparr>pc := Some (c\<lparr>isClosed := True\<rparr>),
                  stopCh := (stopCh t)\<lparr>closed := True\<rparr>,
                  rtpCh := (rtpCh t)\<lparr>closed := True\<rparr>,
                  pliCh := (pliCh t)\<lparr>closed := True\<rparr>\<rparr>,
                Completed)" by blast
  show ?thesis unfolding C by (simp add: Close_def Close_body_def close_chan_def)
qed

lemma live_example_live: "live live_example \<and> wg live_example = 0"
  by (simp add: live_def live_example_def newWebRTCTransport_def make_chan_def)

text \<open>
  \<open>Close\<close>, case by case.  What it does is fixed by the state it finds: without a
  connection it panics at once and nothing has run; with \<open>stopCh\<close> closed already
  it has closed the connection and panics; with the wait group above zero it has
  closed the connection and \<open>stopCh\<close>, in this order, and stands in \<open>wg.Wait()\<close>
  with both channels of step (4) open; with the wait group at zero it closes
  \<open>rtpCh\<close> and then \<open>pliCh\<close>, panicking at the first of them that is closed
  already.
\<close>

lemma Close_exact:
  "Close t =
     (case pc t of
        None \<Rightarrow> ([], t, Panics NilDereference)
      | Some c \<Rightarrow>
          if closed (stopCh t)
          then ([PcClose], t\<lparr>pc := Some (c\<lparr>isClosed := True\<rparr>)\<rparr>, Panics CloseOfClosedChannel)
          else if wg t \<noteq> 0
          then ([PcClose, CloseStopCh],
                t\<lparr>pc := Some (c\<lparr>isClosed := True\<rparr>), stopCh := (stopCh t)\<lparr>closed := True\<rparr>\<rparr>,
                Blocks)
          else if closed (rtpCh t)
          then ([PcClose, CloseStopCh, WgWait],
                t\<lparr>pc := Some (c\<lparr>isClosed := True\<rparr>), stopCh := (stopCh t)\<lparr>closed := True\<rparr>\<rparr>,
                Panics CloseOfClosedChannel)
          else if closed (pliCh t)
          then ([PcClose, CloseStopCh, WgWait, CloseRtpCh],
                t\<lparr>pc := Some (c\<lparr>isClosed := True\<rparr>), stopCh := (stopCh t)\<lparr>closed := True\<rparr>,
                  rtpCh := (rtpCh t)\<lparr>closed := True\<rparr>\<rparr>,
                Panics CloseOfClosedChannel)
          else ([PcClose, CloseStopCh, WgWait, CloseRtpCh, ClosePliCh],
                t\<lparr>pc := Some (c\<lparr>isClosed := True\<rparr>), stopCh := (stopCh t)\<lparr>closed := True\<rparr>,
                  rtpCh := (rtpCh t)\<lparr>closed := True\<rparr>, pliCh := (pliCh t)\<lparr>closed := True\<rparr>\<rparr>,
                Completed))"
  by (simp add: Close_def Close_body_def close_chan_def split: option.splits)

text \<open>
  C3, as the claim states it, fails: on a live transport with no loop outstanding
  the first \<open>Close\<close> returns, and the second one panics with Go's
  "close of closed channel".
\<close>

theorem Close_twice_counterexample:
  "snd (snd (Close live_example)) = Completed \<and>
   snd (snd (Close (fst (snd (Close live_example))))) = Panics CloseOfClosedChannel"
  by (simp add: Close_def Close_body_def close_chan_def live_example_def
      newWebRTCTransport_def make_chan_def)

text \<open>
  C3, amended.  \<open>Close\<close> is for one call.  The first call on a live transport whose
  loops have all reported completion returns without panic.  A second call after a
  first that returned repeats the teardown of the connection, then panics when it
  closes \<open>stopCh\<close>, which the first call closed: it changes nothing else.
\<close>

theorem Close_once:
  "(live t \<and> wg t = 0 \<longrightarrow> snd (snd (Close t)) = Completed) \<and>
   (snd (snd (Close t)) = Completed \<longrightarrow>
      Close (fst (snd (Close t))) = ([PcClose], fst (snd (Close t)), Panics CloseOfClosedChannel))"
proof -
  have "live t \<and> wg t = 0 \<longrightarrow> snd (snd (Close t)) = Completed"
    using Close_live [of t] by auto
  with Close_second [of t] show ?thesis by blast
qed

theorem Close_once_witness:
  "live live_example \<and> wg live_example = 0 \<and> snd (snd (Close live_example)) = Completed \<and>
   Close (fst (snd (Close live_example)))
     = ([PcClose], fst (snd (Close live_example)), Panics CloseOfClosedChannel)"
  using Close_once [of live_example] live_example_live by blast

subsection \<open>AnswerPublish\<close>

text \<open>
  C4, as the claim states it, fails: with options that have no codec key the media
  engine holds the Opus codec only, while with the codec given as vp8 it holds Opus
  and VP8.
\<close>

theorem AnswerPublish_no_codec_counterexample:
  "AnswerPublish_mediaEngine (Some Map.empty) = Ok [RTPOpusCodec 111 48000] \<and>
   AnswerPublish_mediaEngine (Some [''codec'' \<mapsto> VString ''vp8''])
     = Ok [RTPOpusCodec 111 48000, RTPVP8Codec 96 90000]"
  by (simp add: AnswerPublish_mediaEngine_def EqualFold_def toLowerASCII_def
      DefaultPayloadTypeOpus_def DefaultPayloadTypeVP8_def)

text \<open>
  C4, amended.  With options present, VP8 is the video codec registered whenever the
  codec option is a string that is neither h264 nor vp9 under case-insensitive
  comparison (vp8 itself included); when the options have no codec key no video
  codec is registered and the media engine holds Opus only.
\<close>

theorem AnswerPublish_codec_default:
  "(opts ''codec'' = None \<longrightarrow>
      AnswerPublish_mediaEngine (Some opts) = Ok [RTPOpusCodec DefaultPayloadTypeOpus 48000]) \<and>
   (\<forall>s. opts ''codec'' = Some (VString s) \<and> \<not> EqualFold s ''h264'' \<and> \<not> EqualFold s ''vp9'' \<longrightarrow>
      AnswerPublish_mediaEngine (Some opts)
        = Ok [RTPOpusCodec DefaultPayloadTypeOpus 48000, RTPVP8Codec DefaultPayloadTypeVP8 90000]) \<and>
   \<not> EqualFold ''vp8'' ''h264'' \<and> \<not> EqualFold ''vp8'' ''vp9''"
  by (auto simp: AnswerPublish_mediaEngine_def EqualFold_def toLowerASCII_def)

theorem AnswerPublish_codec_default_witness:
  "AnswerPublish_mediaEngine (Some [''video'' \<mapsto> VBool True])
     = Ok [RTPOpusCodec DefaultPayloadTypeOpus 48000] \<and>
   AnswerPublish_mediaEngine (Some [''codec'' \<mapsto> VString ''VP8''])
     = Ok [RTPOpusCodec DefaultPayloadTypeOpus 48000, RTPVP8Codec DefaultPayloadTypeVP8 90000]"
proof -
  have a: "[''video'' \<mapsto> VBool True] ''codec'' = None" by simp
  have b: "[''codec'' \<mapsto> VString ''VP8''] ''codec'' = Some (VString ''VP8'') \<and>
           \<not> EqualFold ''VP8'' ''h264'' \<and> \<not> EqualFold ''VP8'' ''vp9''"
    by (simp add: EqualFold_def toLowerASCII_def)
  from AnswerPublish_codec_default [of "[''video'' \<mapsto> VBool True]"] a
  have c: "AnswerPublish_mediaEngine (Some [''video'' \<mapsto> VBool True])
     = Ok [RTPOpusCodec DefaultPayloadTypeOpus 48000]" by blast
  from AnswerPublish_codec_default [of "[''codec'' \<mapsto> VString ''VP8'']"] b
  have d: "AnswerPublish_mediaEngine (Some [''codec'' \<mapsto> VString ''VP8''])
     = Ok [RTPOpusCodec DefaultPayloadTypeOpus 48000, RTPVP8Codec DefaultPayloadTypeVP8 90000]"
    by blast
  from c d show ?thesis by blast
qed

subsection \<open>SSRCPT\<close>

text \<open>
  C8, as the claim states it, fails: a caller takes the mapping from a new
  publisher transport (it is empty), then a stream with SSRC 5 and payload type 96
  is discovered; the mapping the caller holds now has the entry.
\<close>

theorem SSRCPT_snapshot_counterexample:
  "table_at empty_store (SSRCPT (newWebRTCTransport ''pub'' 0)) 5 = None \<and>
   table_at (OnTrack_register empty_store (newWebRTCTransport ''pub'' 0) 5 96)
     (SSRCPT (newWebRTCTransport ''pub'' 0)) 5 = Some 96"
  by (simp add: table_at_def SSRCPT_def OnTrack_register_def empty_store_def newWebRTCTransport_def)

text \<open>
  C8, amended.  \<open>SSRCPT\<close> returns the transport's own table, not a copy: what the
  caller reads through the value it received is, at the time of the call, the
  table of the transport, and after a later registration of a stream it is the
  table with that stream's entry set; entries of other streams are as before.
\<close>

theorem SSRCPT_live_table:
  "table_at st (SSRCPT t) = table_at st (ssrcPT t) \<and>
   table_at (OnTrack_register st t ssrc pt) (SSRCPT t) = (table_at st (SSRCPT t))(ssrc \<mapsto> pt) \<and>
   table_at (OnTrack_register st t ssrc pt) (SSRCPT t) ssrc = Some pt"
  by (simp add: table_at_def SSRCPT_def OnTrack_register_def fun_eq_iff)

subsection \<open>subReadRTCP\<close>

lemma nack_result_frame:
  "cache (nack_result p pt c sid nack sns) = cache p \<and>
   pub (nack_result p pt c sid nack sns)
     = Some (pt\<lparr>pc := Some (c\<lparr>rtcpOut := rtcpOut c @ nack_forwards p nack sns\<rparr>),
               isLostPacket := (if nack_forwards p nack sns = [] then isLostPacket pt else True)\<rparr>)"
  by (simp add: nack_result_def)




















subsection \<open>float64 rounding\<close>

lemma powi2_mono: "a \<le> b \<Longrightarrow> (2::real) powi a \<le> 2 powi b"
  by (rule power_int_increasing) simp_all

lemma powi2_less_imp: "(2::real) powi a < 2 powi b \<Longrightarrow> a < b"
proof (rule ccontr)
  assume h: "2 powi a < (2::real) powi b" and "\<not> a < b"
  then have "b \<le> a" by simp
  then have "(2::real) powi b \<le> 2 powi a" by (rule powi2_mono)
  with h show False by simp
qed

lemma expo_up_bounds: "1 \<le> x \<Longrightarrow> 2 powi (expo_up x) \<le> x \<and> x < 2 powi (expo_up x + 1)"
proof (induction x rule: expo_up.induct)
  case (1 x)
  show ?case
  proof (cases "x < 2")
    case True
    with "1.prems" show ?thesis by (simp add: expo_up.simps)
  next
    case False
    then have h: "1 \<le> x / 2" by simp
    from "1.IH" [OF False h] have
      a: "2 powi (expo_up (x / 2)) \<le> x / 2" and b: "x / 2 < 2 powi (expo_up (x / 2) + 1)" by simp_all
    have e: "expo_up x = 1 + expo_up (x / 2)" using False by (simp add: expo_up.simps)
    have p: "\<And>k. (2::real) powi (1 + k) = 2 * 2 powi k" by (simp add: power_int_add)
    have p2: "\<And>k. (2::real) powi (1 + k + 1) = 2 * 2 powi (k + 1)" by (simp add: power_int_add)
    from a b show ?thesis unfolding e p p2 by simp
  qed
qed

lemma expo_down_bounds:
  "0 < x \<Longrightarrow> x < 1 \<Longrightarrow> 2 powi (expo_down x) \<le> x \<and> x < 2 powi (expo_down x + 1)"
proof (induction x rule: expo_down.induct)
  case (1 x)
  have nx: "\<not> (x \<le> 0 \<or> 1 \<le> x)" using "1.prems" by simp
  have e: "expo_down x = expo_down (2 * x) - 1" using nx by (simp add: expo_down.simps)
  have p: "\<And>k. (2::real) powi (k - 1) = 2 powi k / 2" by (simp add: power_int_diff)
  show ?case
  proof (cases "2 * x < 1")
    case True
    have "0 < 2 * x" using "1.prems" by simp
    from "1.IH" [OF nx this True] have
      a: "2 powi (expo_down (2 * x)) \<le> 2 * x" and b: "2 * x < 2 powi (expo_down (2 * x) + 1)" by simp_all
    have p2: "(2::real) powi (expo_down (2 * x) - 1 + 1) = 2 powi (expo_down (2 * x) + 1) / 2"
      by (simp add: power_int_add)
    from a b show ?thesis unfolding e p p2 by simp
  next
    case False
    then have "expo_down (2 * x) = 0" by (simp add: expo_down.simps)
    with e have "expo_down x = - 1" by simp
    with False "1.prems" show ?thesis by simp
  qed
qed

lemma expo_bounds: "0 < x \<Longrightarrow> 2 powi (expo x) \<le> x \<and> x < 2 powi (expo x + 1)"
  using expo_up_bounds [of x] expo_down_bounds [of x] by (cases "1 \<le> x") (simp_all add: expo_def)

lemma expo_unique:
  assumes "0 < x" and "2 powi e \<le> x" and "x < 2 powi (e + 1)"
  shows "expo x = e"
proof -
  from expo_bounds [OF assms(1)] have a: "2 powi (expo x) \<le> x" and b: "x < 2 powi (expo x + 1)"
    by simp_all
  from a assms(3) have "(2::real) powi (expo x) < 2 powi (e + 1)" by linarith
  then have "expo x < e + 1" by (rule powi2_less_imp)
  moreover from assms(2) b have "(2::real) powi e < 2 powi (expo x + 1)" by linarith
  then have "e < expo x + 1" by (rule powi2_less_imp)
  ultimately show ?thesis by simp
qed

lemma expo_mono:
  assumes "0 < x" and "x \<le> y"
  shows "expo x \<le> expo y"
proof -
  have y: "0 < y" using assms by simp
  from expo_bounds [OF assms(1)] have "2 powi (expo x) \<le> x" by simp
  moreover from expo_bounds [OF y] have "y < 2 powi (expo y + 1)" by simp
  ultimately have "(2::real) powi (expo x) < 2 powi (expo y + 1)" using assms(2) by linarith
  then have "expo x < expo y + 1" by (rule powi2_less_imp)
  then show ?thesis by simp
qed


lemma round_even_cases: "round_even x = \<lfloor>x\<rfloor> \<or> round_even x = \<lfloor>x\<rfloor> + 1"
  by (simp add: round_even_def)

lemma round_even_of_int: "round_even (of_int n) = n"
  by (simp add: round_even_def)

lemma round_even_mono:
  assumes "x \<le> y"
  shows "round_even x \<le> round_even y"
proof (cases "\<lfloor>x\<rfloor> < \<lfloor>y\<rfloor>")
  case True
  have "round_even x \<le> \<lfloor>x\<rfloor> + 1" using round_even_cases [of x] by auto
  also have "\<dots> \<le> \<lfloor>y\<rfloor>" using True by simp
  also have "\<dots> \<le> round_even y" using round_even_cases [of y] by auto
  finally show ?thesis .
next
  case False
  moreover have "\<lfloor>x\<rfloor> \<le> \<lfloor>y\<rfloor>" using assms by (rule floor_mono)
  ultimately have eq: "\<lfloor>y\<rfloor> = \<lfloor>x\<rfloor>" by simp
  have d: "x - of_int \<lfloor>x\<rfloor> \<le> y - of_int \<lfloor>x\<rfloor>" using assms by simp
  show ?thesis unfolding round_even_def eq using d by auto
qed

lemma round_even_ge: "of_int n \<le> x \<Longrightarrow> n \<le> round_even x"
  using round_even_mono [of "of_int n" x] by (simp add: round_even_of_int)

lemma round_even_le: "x \<le> of_int n \<Longrightarrow> round_even x \<le> n"
  using round_even_mono [of x "of_int n"] by (simp add: round_even_of_int)

lemma ulp_exp_mono: "0 < x \<Longrightarrow> x \<le> y \<Longrightarrow> ulp_exp x \<le> ulp_exp y"
  using expo_mono [of x y] by (simp add: ulp_exp_def)

lemma round_pos_upper:
  assumes "0 < x"
  shows "round_pos x \<le> 2 powi (ulp_exp x + 53)"
proof -
  let ?u = "(2::real) powi ulp_exp x"
  have u: "0 < ?u" by simp
  have "expo x + 1 \<le> ulp_exp x + 53" by (simp add: ulp_exp_def)
  then have "(2::real) powi (expo x + 1) \<le> 2 powi (ulp_exp x + 53)" by (rule powi2_mono)
  with expo_bounds [OF assms] have "x \<le> 2 powi (ulp_exp x + 53)" by simp
  also have "\<dots> = 2 ^ 53 * ?u" by (simp add: power_int_add)
  finally have "x / ?u \<le> 2 ^ 53" using u by (simp add: field_simps)
  then have "x / ?u \<le> of_int (2 ^ 53)" by simp
  then have "round_even (x / ?u) \<le> 2 ^ 53" by (rule round_even_le)
  then have "(of_int (round_even (x / ?u)) :: real) \<le> of_int (2 ^ 53)" by (simp only: of_int_le_iff)
  then have "of_int (round_even (x / ?u)) * ?u \<le> 2 ^ 53 * ?u" using u by simp
  then show ?thesis by (simp add: round_pos_def power_int_add)
qed

lemma round_pos_lower:
  assumes "0 < x" and "- 1022 \<le> expo x"
  shows "2 powi (expo x) \<le> round_pos x"
proof -
  let ?u = "(2::real) powi ulp_exp x"
  have u: "0 < ?u" by simp
  have e: "expo x = ulp_exp x + 52" using assms(2) by (simp add: ulp_exp_def)
  have "(2::real) powi (expo x) = 2 ^ 52 * ?u" unfolding e by (simp add: power_int_add)
  with expo_bounds [OF assms(1)] have "2 ^ 52 * ?u \<le> x" by simp
  then have "2 ^ 52 \<le> x / ?u" using u by (simp add: field_simps)
  then have "of_int (2 ^ 52) \<le> x / ?u" by simp
  then have "2 ^ 52 \<le> round_even (x / ?u)" by (rule round_even_ge)
  then have "(of_int (2 ^ 52) :: real) \<le> of_int (round_even (x / ?u))" by (simp only: of_int_le_iff)
  then have "2 ^ 52 * ?u \<le> of_int (round_even (x / ?u)) * ?u" using u by simp
  then show ?thesis unfolding e by (simp add: round_pos_def power_int_add)
qed

lemma round_pos_mono:
  assumes "0 < x" and "x \<le> y"
  shows "round_pos x \<le> round_pos y"
proof (cases "ulp_exp x = ulp_exp y")
  case True
  let ?u = "(2::real) powi ulp_exp y"
  have "x / ?u \<le> y / ?u" using assms(2) by (simp add: divide_right_mono)
  then have "round_even (x / ?u) \<le> round_even (y / ?u)" by (rule round_even_mono)
  then have "(of_int (round_even (x / ?u)) :: real) \<le> of_int (round_even (y / ?u))" by simp
  then have "of_int (round_even (x / ?u)) * ?u \<le> of_int (round_even (y / ?u)) * ?u" by simp
  then show ?thesis by (simp add: round_pos_def True)
next
  case False
  have y: "0 < y" using assms by simp
  from False ulp_exp_mono [OF assms] have lt: "ulp_exp x < ulp_exp y" by simp
  then have ey: "- 1022 < expo y" by (auto simp: ulp_exp_def max_def split: if_splits)
  then have uy: "ulp_exp y = expo y - 52" by (simp add: ulp_exp_def)
  have "round_pos x \<le> 2 powi (ulp_exp x + 53)" using assms(1) by (rule round_pos_upper)
  also have "\<dots> \<le> 2 powi (expo y)" using lt uy by (intro powi2_mono) simp
  also have "\<dots> \<le> round_pos y" using y ey by (intro round_pos_lower) simp_all
  finally show ?thesis .
qed

lemma round_pos_nonneg:
  assumes "0 \<le> x"
  shows "0 \<le> round_pos x"
proof -
  have "of_int 0 \<le> x / 2 powi ulp_exp x" using assms by simp
  then have "0 \<le> round_even (x / 2 powi ulp_exp x)" by (rule round_even_ge)
  then show ?thesis by (simp add: round_pos_def)
qed


lemma round_pos_0: "round_pos 0 = 0"
  by (simp add: round_pos_def round_even_def)

lemma round_pos_mono0:
  assumes "0 \<le> x" and "x \<le> y"
  shows "round_pos x \<le> round_pos y"
proof (cases "x = 0")
  case True
  with assms round_pos_nonneg [of y] show ?thesis by (simp add: round_pos_0)
next
  case False
  with assms have "0 < x" by simp
  then show ?thesis using assms(2) by (rule round_pos_mono)
qed

lemma round_f64_nonneg:
  "0 \<le> x \<Longrightarrow> round_f64 x = (if round_pos x < 2 ^ 1024 then Fin (round_pos x) else PInf)"
  by (simp add: round_f64_def round_pos_0)

lemma round_pos_exact_nat:
  assumes "0 < n" and "n < 2 ^ 53"
  shows "round_pos (real n) = real n"
proof -
  let ?x = "real n"
  have x: "0 < ?x" "1 \<le> ?x" using assms(1) by simp_all
  from expo_bounds [OF x(1)] have lo: "2 powi (expo ?x) \<le> ?x" and hi: "?x < 2 powi (expo ?x + 1)"
    by simp_all
  have "(2::real) powi 0 < 2 powi (expo ?x + 1)" using x(2) hi by simp
  then have e0: "0 \<le> expo ?x" using powi2_less_imp [of 0 "expo ?x + 1"] by simp
  have "?x < 2 ^ 53" using assms(2) by (metis of_nat_less_iff of_nat_numeral of_nat_power)
  then have "(2::real) powi (expo ?x) < 2 powi 53" using lo by simp
  then have e1: "expo ?x < 53" by (rule powi2_less_imp)
  define k where "k = nat (52 - expo ?x)"
  have ue: "ulp_exp ?x = - int k" using e0 e1 by (simp add: ulp_exp_def k_def)
  have u: "(2::real) powi ulp_exp ?x = 1 / 2 ^ k" unfolding ue by (simp add: power_int_minus_divide)
  have "?x / (1 / 2 ^ k) = of_int (int n * 2 ^ k)" by simp
  then have "round_even (?x / (1 / 2 ^ k)) = int n * 2 ^ k" by (simp only: round_even_of_int)
  then show ?thesis by (simp add: round_pos_def u)
qed

lemma round_pos_2_63: "round_pos (2 ^ 63) = 2 ^ 63"
  by (simp add: round_pos_def ulp_exp_def expo_def expo_up.simps round_even_def)

lemma round_pos_1: "round_pos 1 = 1"
  using round_pos_exact_nat [of 1] by simp

text \<open>Rounding a value between 0 and a bound that is itself a float below 2^1024.\<close>

lemma round_f64_bounded:
  assumes "0 \<le> x" and "x \<le> b" and "round_pos b = b" and "b < 2 ^ 1024"
  shows "round_f64 x = Fin (round_pos x) \<and> 0 \<le> round_pos x \<and> round_pos x \<le> b"
proof -
  have "round_pos x \<le> round_pos b" using assms(1,2) by (rule round_pos_mono0)
  then have le: "round_pos x \<le> b" using assms(3) by simp
  then have "round_pos x < 2 ^ 1024" using assms(4) by simp
  with le assms(1) show ?thesis by (simp add: round_f64_nonneg round_pos_nonneg)
qed

subsection \<open>sendREMB\<close>

lemma sendREMB_clamp_unat:
  "unat (sendREMB_clamp w) = max 30000 (min 100000 (unat w))"
  by (simp add: sendREMB_clamp_def rembLowBW_def rembHighBW_def word_less_nat_alt Let_def)

lemma sendREMB_clamp_bounds: "rembLowBW \<le> sendREMB_clamp w \<and> sendREMB_clamp w \<le> rembHighBW"
  by (simp add: word_le_nat_alt sendREMB_clamp_unat) (simp add: rembLowBW_def rembHighBW_def)

lemma tick_rate_bound: "unat ((tot :: 64 word) div 3) < 2 ^ 63"
proof -
  have "unat tot < 2 ^ 64" using unsigned_less [of tot, where ?'a = nat] by simp
  then have "unat tot div 3 < 2 ^ 63" by simp
  then show ?thesis by (simp add: unat_div)
qed

lemma double_unat: "unat (R :: 64 word) < 2 ^ 63 \<Longrightarrow> unat (R * 2) = 2 * unat R"
  by (simp add: unat_word_ariths)

text \<open>The expression of the third branch, on a byte rate below 2^63 and a loss rate in [0, 1].\<close>

lemma unat_real_bound:
  assumes "unat (R :: 64 word) < 2 ^ 63"
  shows "0 \<le> real (unat R) \<and> real (unat R) \<le> 2 ^ 63"
proof -
  have "unat R \<le> 2 ^ 63" using assms by simp
  then have "real (unat R) \<le> real (2 ^ 63)" by (simp only: of_nat_le_iff)
  then show ?thesis by (simp del: of_nat_unat)
qed

lemma one_minus_rounded:
  assumes "0 \<le> q" and "q \<le> 1"
  shows "round_f64 (1 - q) = Fin (round_pos (1 - q)) \<and> 0 \<le> round_pos (1 - q) \<and> round_pos (1 - q) \<le> 1"
proof -
  have one: "(1::real) < 2 ^ 1024" by simp
  have "0 \<le> 1 - q" "1 - q \<le> 1" using assms by simp_all
  from round_f64_bounded [OF this round_pos_1 one] show ?thesis .
qed

lemma rate_rounded:
  assumes "unat (R :: 64 word) < 2 ^ 63"
  shows "uint64_to_f64 R = Fin (round_pos (real (unat R))) \<and>
         0 \<le> round_pos (real (unat R)) \<and> round_pos (real (unat R)) \<le> 2 ^ 63"
proof -
  have big: "(2::real) ^ 63 < 2 ^ 1024" by simp
  from unat_real_bound [OF assms] have "0 \<le> real (unat R)" "real (unat R) \<le> 2 ^ 63" by simp_all
  from round_f64_bounded [OF this round_pos_2_63 big] show ?thesis
    by (simp only: uint64_to_f64_def)
qed

lemma third_branch_value:
  assumes R: "unat (R :: 64 word) < 2 ^ 63" and q: "0 \<le> q" "q \<le> 1"
  shows "unat (f64_to_uint64 impl (f64_mul (uint64_to_f64 R) (f64_sub (Fin 1) (Fin q))))
           = nat \<lfloor>round_pos (round_pos (real (unat R)) * round_pos (1 - q))\<rfloor>"
proof -
  let ?a = "round_pos (1 - q)"
  let ?Rf = "round_pos (real (unat R))"
  let ?b = "round_pos (?Rf * ?a)"
  have big: "(2::real) ^ 63 < 2 ^ 1024" by simp
  from rate_rounded [OF R] have Rf: "uint64_to_f64 R = Fin ?Rf" "0 \<le> ?Rf" "?Rf \<le> 2 ^ 63" by simp_all
  from one_minus_rounded [OF q] have a: "round_f64 (1 - q) = Fin ?a" "0 \<le> ?a" "?a \<le> 1" by simp_all
  have y: "0 \<le> ?Rf * ?a" using Rf(2) a(2) by simp
  have "?Rf * ?a \<le> ?Rf" using Rf(2) a(3) by (simp add: mult_left_le)
  then have y2: "?Rf * ?a \<le> 2 ^ 63" using Rf(3) by simp
  from round_f64_bounded [OF y y2 round_pos_2_63 big]
  have b: "round_f64 (?Rf * ?a) = Fin ?b" "0 \<le> ?b" "?b \<le> 2 ^ 63" by simp_all
  have fl: "0 \<le> \<lfloor>?b\<rfloor>" "\<lfloor>?b\<rfloor> < 2 ^ 64"
  proof -
    show "0 \<le> \<lfloor>?b\<rfloor>" using b(2) by simp
    have "?b < 2 ^ 64" using b(3) by simp
    then have "?b < of_int (2 ^ 64)" by simp
    then show "\<lfloor>?b\<rfloor> < 2 ^ 64" by (simp only: floor_less_iff)
  qed
  have "f64_mul (uint64_to_f64 R) (f64_sub (Fin 1) (Fin q)) = Fin ?b"
    by (simp del: of_nat_unat add: Rf(1) a(1) b(1))
  moreover have "f64_to_uint64 impl (Fin ?b) = word_of_int \<lfloor>?b\<rfloor>"
    using b(2,3) by (simp add: f64_to_uint64_def)
  moreover have "unat (word_of_int \<lfloor>?b\<rfloor> :: 64 word) = nat \<lfloor>?b\<rfloor>"
  proof -
    have "take_bit 64 \<lfloor>?b\<rfloor> = \<lfloor>?b\<rfloor>" using fl by (intro take_bit_int_eq_self) simp_all
    then show ?thesis by (simp add: unsigned_of_int)
  qed
  ultimately show ?thesis by simp
qed

lemma third_branch_small:
  assumes R: "unat (R :: 64 word) < 2 ^ 53" and q: "0 \<le> q" "q \<le> 1"
  shows "nat \<lfloor>round_pos (round_pos (real (unat R)) * round_pos (1 - q))\<rfloor> \<le> unat R"
proof -
  let ?r = "real (unat R)"
  let ?a = "round_pos (1 - q)"
  from one_minus_rounded [OF q] have a: "0 \<le> ?a" "?a \<le> 1" by simp_all
  have ex: "round_pos ?r = ?r"
  proof (cases "unat R = 0")
    case True
    then show ?thesis by (simp add: round_pos_0)
  next
    case False
    then have "0 < unat R" by simp
    then show ?thesis using R by (rule round_pos_exact_nat)
  qed
  have r0: "0 \<le> ?r" by (simp only: of_nat_0_le_iff)
  have "0 \<le> ?r * ?a" using r0 a(1) by (rule mult_nonneg_nonneg)
  moreover have "?r * ?a \<le> ?r" using r0 a(2) by (simp add: mult_left_le)
  ultimately have "round_pos (?r * ?a) \<le> round_pos ?r" by (rule round_pos_mono0)
  then have "round_pos (round_pos ?r * ?a) \<le> ?r" by (simp only: ex)
  then have "\<lfloor>round_pos (round_pos ?r * ?a)\<rfloor> \<le> \<lfloor>?r\<rfloor>" by (rule floor_mono)
  also have "\<lfloor>?r\<rfloor> = int (unat R)" by (simp only: floor_of_nat)
  finally show ?thesis by (simp only: nat_le_iff)
qed

lemma third_branch_antimono:
  assumes R: "unat (R :: 64 word) < 2 ^ 63" and q: "0 \<le> q1" "q1 \<le> q2" "q2 \<le> 1"
  shows "nat \<lfloor>round_pos (round_pos (real (unat R)) * round_pos (1 - q2))\<rfloor>
         \<le> nat \<lfloor>round_pos (round_pos (real (unat R)) * round_pos (1 - q1))\<rfloor>"
proof -
  let ?Rf = "round_pos (real (unat R))"
  from rate_rounded [OF R] have Rf: "0 \<le> ?Rf" by simp
  have "0 \<le> 1 - q2" "1 - q2 \<le> 1 - q1" using q by simp_all
  then have a: "round_pos (1 - q2) \<le> round_pos (1 - q1)" by (rule round_pos_mono0)
  have a0: "0 \<le> round_pos (1 - q2)" using q by (intro round_pos_nonneg) simp
  have "0 \<le> ?Rf * round_pos (1 - q2)" using Rf a0 by (rule mult_nonneg_nonneg)
  moreover have "?Rf * round_pos (1 - q2) \<le> ?Rf * round_pos (1 - q1)"
    using a Rf by (rule mult_left_mono)
  ultimately have "round_pos (?Rf * round_pos (1 - q2)) \<le> round_pos (?Rf * round_pos (1 - q1))"
    by (rule round_pos_mono0)
  then have "\<lfloor>round_pos (?Rf * round_pos (1 - q2))\<rfloor> \<le> \<lfloor>round_pos (?Rf * round_pos (1 - q1))\<rfloor>"
    by (rule floor_mono)
  then show ?thesis by (rule nat_mono)
qed

lemmas f64_eval = round_f64_def round_pos_def ulp_exp_def expo_def expo_up.simps expo_down.simps round_even_def

lemma f64_0_1_value: "f64_0_1 = Fin (3602879701896397 / 36028797018963968)"
  by (simp add: f64_0_1_def f64_eval)

lemma is_float64_round_pos:
  assumes "is_float64 q" and "0 < q"
  shows "round_pos q = q"
  using assms by (simp add: is_float64_def round_f64_def split: if_splits)

text \<open>No float64 lies between one tenth and the constant 0.1 of the source, which is a
  little more than one tenth.\<close>

lemma no_float_below_0_1:
  assumes f: "is_float64 q" and lo: "1 / 10 \<le> q" and hi: "q < 3602879701896397 / 36028797018963968"
  shows False
proof -
  have q0: "0 < q" using lo by simp
  have e: "expo q = - 4" using q0 lo hi by (intro expo_unique) simp_all
  have u: "ulp_exp q = - 56" by (simp add: ulp_exp_def e)
  define k where "k = round_even (q / 2 powi (- 56))"
  from is_float64_round_pos [OF f q0] have qk: "q = of_int k / 2 ^ 56"
    by (simp add: round_pos_def u k_def)
  from lo qk have "(72057594037927936::real) \<le> 10 * of_int k" by simp
  then have "(of_int 72057594037927936 :: real) \<le> of_int (10 * k)" by simp
  then have a: "72057594037927936 \<le> 10 * k" by (simp only: of_int_le_iff)
  from hi qk have "(of_int k :: real) < 7205759403792794" by simp
  then have "(of_int k :: real) < of_int 7205759403792794" by simp
  then have b: "k < 7205759403792794" by (simp only: of_int_less_iff)
  from a b show False by simp
qed

lemma lt_0_1_iff:
  assumes "is_float64 q"
  shows "f64_lt (Fin q) f64_0_1 \<longleftrightarrow> q < 1 / 10"
proof
  assume "f64_lt (Fin q) f64_0_1"
  then have hi: "q < 3602879701896397 / 36028797018963968" by (simp add: f64_0_1_value)
  show "q < 1 / 10"
  proof (rule ccontr)
    assume "\<not> q < 1 / 10"
    then have "1 / 10 \<le> q" by simp
    from no_float_below_0_1 [OF assms this hi] show False .
  qed
next
  assume "q < 1 / 10"
  then show "f64_lt (Fin q) f64_0_1" by (simp add: f64_0_1_value)
qed

text \<open>The proposal, as numbers, on a byte rate that \<open>receiveRTP\<close> can have stored.\<close>

lemma proposal_unat:
  assumes R: "unat (R :: 64 word) < 2 ^ 63" and q: "0 \<le> q" "q \<le> 1"
  shows "unat (sendREMB_proposal impl R (Fin q)) =
     (if q = 0 \<and> R = 0 then 100000
      else if f64_lt (Fin q) f64_0_1 then 2 * unat R
      else nat \<lfloor>round_pos (round_pos (real (unat R)) * round_pos (1 - q))\<rfloor>)"
  using q double_unat [OF R] third_branch_value [OF R q, of impl]
  by (simp add: sendREMB_proposal_def f64_le_def rembHighBW_def mult.commute)

lemma clamp_mono_nat: "(a::nat) \<le> b \<Longrightarrow> max 30000 (min 100000 a) \<le> max 30000 (min 100000 b)"
  by simp

lemma sendREMB_bw_antimono:
  assumes R: "unat (R :: 64 word) < 2 ^ 63" and q: "0 \<le> q1" "q1 \<le> q2" "q2 \<le> 1"
  shows "unat (sendREMB_bw impl R (Fin q2)) \<le> unat (sendREMB_bw impl R (Fin q1))"
proof -
  have q1: "0 \<le> q1" "q1 \<le> 1" and q2: "0 \<le> q2" "q2 \<le> 1" using q by simp_all
  let ?P3 = "\<lambda>q. nat \<lfloor>round_pos (round_pos (real (unat R)) * round_pos (1 - q))\<rfloor>"
  let ?c = "3602879701896397 / 36028797018963968 :: real"
  note p1 = proposal_unat [OF R q1, of impl]
  note p2 = proposal_unat [OF R q2, of impl]
  have bw: "\<And>q. unat (sendREMB_bw impl R (Fin q)) = max 30000 (min 100000 (unat (sendREMB_proposal impl R (Fin q))))"
    by (simp add: sendREMB_bw_def sendREMB_clamp_unat)
  consider (high) "q1 = 0 \<and> R = 0"
    | (double) "\<not> (q1 = 0 \<and> R = 0)" "q1 < ?c"
    | (scaled) "\<not> (q1 = 0 \<and> R = 0)" "\<not> q1 < ?c" by blast
  then show ?thesis
  proof cases
    case high
    with p1 have "unat (sendREMB_proposal impl R (Fin q1)) = 100000" by simp
    then have "unat (sendREMB_bw impl R (Fin q1)) = 100000" by (simp only: bw)
    moreover have "unat (sendREMB_bw impl R (Fin q2)) \<le> 100000" by (simp add: bw)
    ultimately show ?thesis by simp
  next
    case double
    then have a: "unat (sendREMB_proposal impl R (Fin q1)) = 2 * unat R"
      by (simp add: p1 f64_0_1_value)
    have n2: "\<not> (q2 = 0 \<and> R = 0)" using double(1) q by auto
    show ?thesis
    proof (cases "q2 < ?c")
      case True
      with n2 have "unat (sendREMB_proposal impl R (Fin q2)) = 2 * unat R"
        by (simp add: p2 f64_0_1_value)
      with a show ?thesis by (simp add: bw)
    next
      case False
      with n2 have b: "unat (sendREMB_proposal impl R (Fin q2)) = ?P3 q2"
        by (simp add: p2 f64_0_1_value)
      show ?thesis
      proof (cases "unat R < 50000")
        case True
        then have "unat R < 2 ^ 53" by simp
        from third_branch_small [OF this q2] have "?P3 q2 \<le> 2 * unat R" by simp
        then show ?thesis unfolding bw a b by (rule clamp_mono_nat)
      next
        case False
        then have "unat (sendREMB_bw impl R (Fin q1)) = 100000" by (simp add: bw a)
        moreover have "unat (sendREMB_bw impl R (Fin q2)) \<le> 100000" by (simp add: bw)
        ultimately show ?thesis by simp
      qed
    qed
  next
    case scaled
    then have a: "unat (sendREMB_proposal impl R (Fin q1)) = ?P3 q1"
      by (simp add: p1 f64_0_1_value)
    have c2: "\<not> q2 < ?c" using scaled(2) q by simp
    then have "q2 \<noteq> 0" by auto
    with c2 have b: "unat (sendREMB_proposal impl R (Fin q2)) = ?P3 q2"
      by (simp add: p2 f64_0_1_value)
    from third_branch_antimono [OF R q] show ?thesis unfolding bw a b by (rule clamp_mono_nat)
  qed
qed

lemma sendREMB_bw_unat_bounds:
  "30000 \<le> unat (sendREMB_bw impl R L) \<and> unat (sendREMB_bw impl R L) \<le> 100000"
  by (simp add: sendREMB_bw_def sendREMB_clamp_unat)

lemma times8_unat: "unat (sendREMB_bw impl R L * 8) = 8 * unat (sendREMB_bw impl R L)"
proof -
  have "unat (sendREMB_bw impl R L) \<le> 100000" using sendREMB_bw_unat_bounds by blast
  then show ?thesis by (simp add: unat_word_ariths)
qed

lemma word_le_unat_8:
  "unat (a :: 64 word) \<le> unat b \<Longrightarrow> unat b \<le> 100000 \<Longrightarrow> a * 8 \<le> b * 8"
  by (simp add: word_le_nat_alt unat_word_ariths)

text \<open>
  C6.  Take any byte rate that \<open>receiveRTP\<close> stores (a third of a \<open>uint64\<close>
  count; zero, the initial value, is among them) and two loss rates
  \<open>0 \<le> q1 \<le> q2 \<le> 1\<close>: the estimate for \<open>q2\<close> is at most the estimate for
  \<open>q1\<close>, before and after the multiplication by 8.  For every byte rate and every
  loss rate the estimate before the multiplication lies in [30000, 100000].
\<close>

theorem sendREMB_bw_monotone_bounded:
  "(0 \<le> q1 \<and> q1 \<le> q2 \<and> q2 \<le> 1 \<longrightarrow>
      sendREMB_bw impl (byteRate (receiveRTP_tick t total3)) (Fin q2)
        \<le> sendREMB_bw impl (byteRate (receiveRTP_tick t total3)) (Fin q1) \<and>
      sendREMB_bw impl (byteRate (receiveRTP_tick t total3)) (Fin q2) * 8
        \<le> sendREMB_bw impl (byteRate (receiveRTP_tick t total3)) (Fin q1) * 8) \<and>
   rembLowBW \<le> sendREMB_bw impl rate lostRate \<and> sendREMB_bw impl rate lostRate \<le> rembHighBW \<and>
   rembLowBW = 30000 \<and> rembHighBW = 100000"
proof -
  let ?R = "byteRate (receiveRTP_tick t total3)"
  have R: "unat ?R < 2 ^ 63" using tick_rate_bound [of total3] by (simp add: receiveRTP_tick_def)
  have mono: "sendREMB_bw impl ?R (Fin q2) \<le> sendREMB_bw impl ?R (Fin q1) \<and>
      sendREMB_bw impl ?R (Fin q2) * 8 \<le> sendREMB_bw impl ?R (Fin q1) * 8"
    if q: "0 \<le> q1 \<and> q1 \<le> q2 \<and> q2 \<le> 1"
  proof -
    from q have "0 \<le> q1" "q1 \<le> q2" "q2 \<le> 1" by simp_all
    from sendREMB_bw_antimono [OF R this]
    have le: "unat (sendREMB_bw impl ?R (Fin q2)) \<le> unat (sendREMB_bw impl ?R (Fin q1))" .
    have up: "unat (sendREMB_bw impl ?R (Fin q1)) \<le> 100000"
      using sendREMB_bw_unat_bounds by blast
    from le have "sendREMB_bw impl ?R (Fin q2) \<le> sendREMB_bw impl ?R (Fin q1)"
      by (simp only: word_le_nat_alt)
    moreover from le up have "sendREMB_bw impl ?R (Fin q2) * 8 \<le> sendREMB_bw impl ?R (Fin q1) * 8"
      by (rule word_le_unat_8)
    ultimately show ?thesis by blast
  qed
  have bounds: "rembLowBW \<le> sendREMB_bw impl rate lostRate \<and> sendREMB_bw impl rate lostRate \<le> rembHighBW"
    unfolding sendREMB_bw_def by (rule sendREMB_clamp_bounds)
  have vals: "rembLowBW = 30000 \<and> rembHighBW = 100000"
    by (simp add: rembLowBW_def rembHighBW_def)
  from mono bounds vals show ?thesis by blast
qed

lemma round_f64_half: "round_f64 (1 / 2) = Fin (1 / 2)" by (simp add: f64_eval)
lemma round_f64_3quarter: "round_f64 (3 / 4) = Fin (3 / 4)" by (simp add: f64_eval)
lemma round_f64_80000: "round_f64 80000 = Fin 80000" by (simp add: f64_eval)
lemma round_f64_60000: "round_f64 60000 = Fin 60000" by (simp add: f64_eval)
lemma round_f64_40000: "round_f64 40000 = Fin 40000" by (simp add: f64_eval)

lemma sendREMB_bw_80000_half: "sendREMB_bw impl 80000 (Fin (1 / 2)) = 40000"
  by (simp add: sendREMB_bw_def sendREMB_proposal_def sendREMB_clamp_def f64_le_def f64_0_1_value
      uint64_to_f64_def f64_to_uint64_def rembLowBW_def rembHighBW_def
      round_f64_half round_f64_80000 round_f64_40000)

lemma sendREMB_bw_80000_quarter: "sendREMB_bw impl 80000 (Fin (1 / 4)) = 60000"
  by (simp add: sendREMB_bw_def sendREMB_proposal_def sendREMB_clamp_def f64_le_def f64_0_1_value
      uint64_to_f64_def f64_to_uint64_def rembLowBW_def rembHighBW_def
      round_f64_3quarter round_f64_80000 round_f64_60000)

theorem sendREMB_bw_monotone_bounded_witness:
  "(0::real) \<le> 1 / 4 \<and> (1 / 4 :: real) \<le> 1 / 2 \<and> (1 / 2 :: real) \<le> 1 \<and>
   byteRate (receiveRTP_tick live_example 240000) = 80000 \<and>
   sendREMB_bw 0 80000 (Fin (1 / 2)) \<le> sendREMB_bw 0 80000 (Fin (1 / 4)) \<and>
   sendREMB_bw 0 80000 (Fin (1 / 2)) = 40000 \<and> sendREMB_bw 0 80000 (Fin (1 / 4)) = 60000"
proof -
  have r: "byteRate (receiveRTP_tick live_example 240000) = 80000"
    by (simp add: receiveRTP_tick_def)
  have q: "(0::real) \<le> 1 / 4 \<and> (1 / 4 :: real) \<le> 1 / 2 \<and> (1 / 2 :: real) \<le> 1" by simp
  from sendREMB_bw_monotone_bounded [of "1 / 4" "1 / 2" 0 live_example 240000] q
  have "sendREMB_bw 0 (byteRate (receiveRTP_tick live_example 240000)) (Fin (1 / 2))
        \<le> sendREMB_bw 0 (byteRate (receiveRTP_tick live_example 240000)) (Fin (1 / 4))"
    by blast
  then have "sendREMB_bw 0 80000 (Fin (1 / 2)) \<le> sendREMB_bw 0 80000 (Fin (1 / 4))"
    by (simp only: r)
  with r q show ?thesis by (simp add: sendREMB_bw_80000_half sendREMB_bw_80000_quarter)
qed

lemma sendREMB_clamp_max_min: "sendREMB_clamp w = max 30000 (min 100000 w)"
  by (auto simp: sendREMB_clamp_def rembLowBW_def rembHighBW_def Let_def max_def min_def
      word_less_nat_alt word_le_nat_alt word_unat_eq_iff)

lemma sendREMB_proposal_Fin:
  assumes "is_float64 q" and "0 \<le> q"
  shows "sendREMB_proposal impl R (Fin q) =
     (if q = 0 \<and> R = 0 then 100000
      else if q < 1 / 10 then R * 2
      else f64_to_uint64 impl (f64_mul (uint64_to_f64 R) (f64_sub (Fin 1) (Fin q))))"
  using assms(2) lt_0_1_iff [OF assms(1)]
  by (simp add: sendREMB_proposal_def f64_le_def rembHighBW_def)

lemma f64_mul_NaN_right: "f64_mul x NaN = NaN"
  by (cases x) simp_all

lemma sendREMB_NaN:
  "pc t = Some c \<Longrightarrow>
   sendREMB ks impl t NaN =
     Ok (t\<lparr>pc := Some (c\<lparr>rtcpOut := rtcpOut c @
           [[ReceiverEstimatedMaximumBitrate (sendREMB_videoSSRC (track t) ks)
               (sendREMB_clamp impl * 8) [sendREMB_videoSSRC (track t) ks]]]\<rparr>)\<rparr>)"
  by (simp add: sendREMB_def sendREMB_bw_def sendREMB_proposal_def f64_le_def f64_0_1_value
      f64_mul_NaN_right f64_to_uint64_def pc_WriteRTCP_def Let_def)

text \<open>
  C1, as the claim states it, fails: not every loss rate outside [0, 1] is
  rejected.  The guard of \<open>sendREMB\<close> is \<open>lostRate > 1 || lostRate < 0\<close>, and a
  NaN is neither above 1 nor below 0.  On the publisher below (byte rate 80000)
  a NaN gets a report: none of the comparisons holds, the proposal is
  \<open>uint64\<close> of a NaN, which the language leaves to the implementation (0 here,
  clamped to 30000), and the report goes out with bitrate 240000.
\<close>

theorem sendREMB_NaN_counterexample:
  "\<not> f64_le (Fin 0) NaN \<and> \<not> f64_le NaN (Fin 1) \<and>
   sendREMB [] 0 (receiveRTP_tick live_example 240000) NaN
     = Ok ((receiveRTP_tick live_example 240000)
            \<lparr>pc := Some \<lparr>isClosed = False,
                           rtcpOut = [[ReceiverEstimatedMaximumBitrate 0 240000 [0]]]\<rparr>\<rparr>) \<and>
   sendREMB [] 0 (receiveRTP_tick live_example 240000) NaN
     \<noteq> Ok (receiveRTP_tick live_example 240000)"
  by (simp add: sendREMB_def sendREMB_bw_def sendREMB_proposal_def sendREMB_clamp_def
      sendREMB_videoSSRC_def f64_le_def f64_0_1_value f64_mul_NaN_right f64_to_uint64_def
      pc_WriteRTCP_def Let_def rembLowBW_def rembHighBW_def receiveRTP_tick_def live_example_def
      newWebRTCTransport_def)

text \<open>
  C1, amended.  \<open>sendREMB\<close> returns the transport as it was, with no report
  written, when the loss rate is below 0 or above 1 (the infinities included).  For
  a loss rate \<open>q\<close> in [0, 1] and a transport with a connection it writes one
  report: the proposal is 100000 when \<open>q = 0\<close> and the byte rate is 0, else twice
  the byte rate when \<open>q < 0.1\<close>, else the \<open>float64\<close> product of the byte rate
  and \<open>1 - q\<close> with its fraction dropped; the proposal is clamped to
  [30000, 100000]; the report's bitrate is the clamped value times 8, which does not
  wrap.  On a byte rate that \<open>receiveRTP\<close> stores the doubling does not wrap
  either, and the product is a number of the \<open>uint64\<close> range, so nothing is left
  to the implementation.  A NaN is not rejected: on a transport with a connection
  it gets one report, whose proposal is the implementation's \<open>uint64\<close> of a NaN
  (\<open>impl\<close>), clamped and multiplied by 8 in the same way.
\<close>

theorem sendREMB_spec:
  "(q < 0 \<or> 1 < q \<longrightarrow> sendREMB ks impl t (Fin q) = Ok t) \<and>
   sendREMB ks impl t PInf = Ok t \<and> sendREMB ks impl t NInf = Ok t \<and>
   (is_float64 q \<and> 0 \<le> q \<and> q \<le> 1 \<and> pc t = Some c \<longrightarrow>
      (let P = (if q = 0 \<and> byteRate t = 0 then 100000
                else if q < 1 / 10 then byteRate t * 2
                else f64_to_uint64 impl (f64_mul (uint64_to_f64 (byteRate t)) (f64_sub (Fin 1) (Fin q))));
           v = sendREMB_videoSSRC (track t) ks
       in sendREMB ks impl t (Fin q) =
            Ok (t\<lparr>pc := Some (c\<lparr>rtcpOut := rtcpOut c @
                  [[ReceiverEstimatedMaximumBitrate v (max 30000 (min 100000 P) * 8) [v]]]\<rparr>)\<rparr>) \<and>
          unat (max 30000 (min 100000 P) * 8) = 8 * max 30000 (min 100000 (unat P)))) \<and>
   (byteRate t = total3 div 3 \<and> 0 \<le> q \<and> q \<le> 1 \<longrightarrow>
      unat (byteRate t * 2) = 2 * unat (byteRate t) \<and>
      unat (f64_to_uint64 impl (f64_mul (uint64_to_f64 (byteRate t)) (f64_sub (Fin 1) (Fin q))))
        = nat \<lfloor>round_pos (round_pos (real (unat (byteRate t))) * round_pos (1 - q))\<rfloor>) \<and>
   (pc t = Some c \<longrightarrow>
      (let v = sendREMB_videoSSRC (track t) ks
       in sendREMB ks impl t NaN =
            Ok (t\<lparr>pc := Some (c\<lparr>rtcpOut := rtcpOut c @
                  [[ReceiverEstimatedMaximumBitrate v (max 30000 (min 100000 impl) * 8) [v]]]\<rparr>)\<rparr>) \<and>
          unat (max 30000 (min 100000 impl) * 8) = 8 * max 30000 (min 100000 (unat impl))))"
proof -
  have a: "q < 0 \<or> 1 < q \<longrightarrow> sendREMB ks impl t (Fin q) = Ok t"
    by (auto simp: sendREMB_def)
  have b: "sendREMB ks impl t PInf = Ok t \<and> sendREMB ks impl t NInf = Ok t"
    by (simp add: sendREMB_def)
  have c: "let P = (if q = 0 \<and> byteRate t = 0 then 100000
                else if q < 1 / 10 then byteRate t * 2
                else f64_to_uint64 impl (f64_mul (uint64_to_f64 (byteRate t)) (f64_sub (Fin 1) (Fin q))));
           v = sendREMB_videoSSRC (track t) ks
       in sendREMB ks impl t (Fin q) =
            Ok (t\<lparr>pc := Some (c\<lparr>rtcpOut := rtcpOut c @
                  [[ReceiverEstimatedMaximumBitrate v (max 30000 (min 100000 P) * 8) [v]]]\<rparr>)\<rparr>) \<and>
          unat (max 30000 (min 100000 P) * 8) = 8 * max 30000 (min 100000 (unat P))"
    if h: "is_float64 q \<and> 0 \<le> q \<and> q \<le> 1 \<and> pc t = Some c"
  proof -
    from h have f: "is_float64 q" and q: "0 \<le> q" "q \<le> 1" and p: "pc t = Some c" by simp_all
    let ?P = "sendREMB_proposal impl (byteRate t) (Fin q)"
    have bw: "sendREMB_bw impl (byteRate t) (Fin q) = max 30000 (min 100000 ?P)"
      by (simp only: sendREMB_bw_def sendREMB_clamp_max_min)
    have run: "sendREMB ks impl t (Fin q) =
            Ok (t\<lparr>pc := Some (c\<lparr>rtcpOut := rtcpOut c @
                  [[ReceiverEstimatedMaximumBitrate (sendREMB_videoSSRC (track t) ks)
                      (max 30000 (min 100000 ?P) * 8) [sendREMB_videoSSRC (track t) ks]]]\<rparr>)\<rparr>)"
      using q p by (simp add: sendREMB_def bw pc_WriteRTCP_def Let_def)
    have u: "unat (max 30000 (min 100000 ?P) * 8) = 8 * max 30000 (min 100000 (unat ?P))"
      using times8_unat [of impl "byteRate t" "Fin q"]
      by (simp only: sendREMB_bw_def sendREMB_clamp_unat flip: sendREMB_clamp_max_min)
    from run u show ?thesis
      unfolding sendREMB_proposal_Fin [OF f q(1)] by (simp only: Let_def)
  qed
  have d: "unat (byteRate t * 2) = 2 * unat (byteRate t) \<and>
      unat (f64_to_uint64 impl (f64_mul (uint64_to_f64 (byteRate t)) (f64_sub (Fin 1) (Fin q))))
        = nat \<lfloor>round_pos (round_pos (real (unat (byteRate t))) * round_pos (1 - q))\<rfloor>"
    if h: "byteRate t = total3 div 3 \<and> 0 \<le> q \<and> q \<le> 1"
  proof -
    from h have R: "unat (byteRate t) < 2 ^ 63" using tick_rate_bound [of total3] by simp
    from h have q: "0 \<le> q" "q \<le> 1" by simp_all
    from double_unat [OF R] third_branch_value [OF R q, of impl] show ?thesis by blast
  qed
  have e: "let v = sendREMB_videoSSRC (track t) ks
       in sendREMB ks impl t NaN =
            Ok (t\<lparr>pc := Some (c\<lparr>rtcpOut := rtcpOut c @
                  [[ReceiverEstimatedMaximumBitrate v (max 30000 (min 100000 impl) * 8) [v]]]\<rparr>)\<rparr>) \<and>
          unat (max 30000 (min 100000 impl) * 8) = 8 * max 30000 (min 100000 (unat impl))"
    if p: "pc t = Some c"
  proof -
    have bw: "sendREMB_bw impl (byteRate t) NaN = sendREMB_clamp impl"
      by (simp add: sendREMB_bw_def sendREMB_proposal_def f64_le_def f64_0_1_value
          f64_mul_NaN_right f64_to_uint64_def)
    have u: "unat (sendREMB_clamp impl * 8) = 8 * max 30000 (min 100000 (unat impl))"
      using times8_unat [of impl "byteRate t" NaN] by (simp only: bw sendREMB_clamp_unat)
    from sendREMB_NaN [OF p, of ks impl] u show ?thesis
      by (simp only: Let_def sendREMB_clamp_max_min)
  qed
  from a b c d e show ?thesis by blast
qed

theorem sendREMB_spec_witness:
  "is_float64 (1 / 2) \<and>
   sendREMB [] 0 (receiveRTP_tick live_example 240000) (Fin (3 / 2))
     = Ok (receiveRTP_tick live_example 240000) \<and>
   sendREMB [] 0 (receiveRTP_tick live_example 240000) (Fin (1 / 2))
     = Ok ((receiveRTP_tick live_example 240000)
            \<lparr>pc := Some \<lparr>isClosed = False,
                           rtcpOut = [[ReceiverEstimatedMaximumBitrate 0 320000 [0]]]\<rparr>\<rparr>)"
proof -
  let ?t = "receiveRTP_tick live_example 240000"
  let ?c = "\<lparr>isClosed = False, rtcpOut = []\<rparr>"
  have f: "is_float64 (1 / 2)" by (simp add: is_float64_def round_f64_half)
  have p: "pc ?t = Some ?c" by (simp add: receiveRTP_tick_def live_example_def)
  have r: "byteRate ?t = 80000" by (simp add: receiveRTP_tick_def)
  have v: "sendREMB_videoSSRC (track ?t) [] = 0" by (simp add: sendREMB_videoSSRC_def)
  from sendREMB_spec [of "3 / 2" "[]" 0 ?t ?c 0]
  have a: "sendREMB [] 0 ?t (Fin (3 / 2)) = Ok ?t" by simp
  from sendREMB_spec [of "1 / 2" "[]" 0 ?t ?c 0] f p
  have "sendREMB [] 0 ?t (Fin (1 / 2)) =
          Ok (?t\<lparr>pc := Some (?c\<lparr>rtcpOut := rtcpOut ?c @
              [[ReceiverEstimatedMaximumBitrate 0 (max 30000 (min 100000 40000) * 8) [0]]]\<rparr>)\<rparr>)"
    by (simp add: Let_def r v uint64_to_f64_def f64_to_uint64_def
        round_f64_half round_f64_80000 round_f64_40000)
  then have b: "sendREMB [] 0 ?t (Fin (1 / 2)) =
     Ok (?t\<lparr>pc := Some \<lparr>isClosed = False,
                           rtcpOut = [[ReceiverEstimatedMaximumBitrate 0 320000 [0]]]\<rparr>\<rparr>)"
    by simp
  from f a b show ?thesis by blast
qed

text \<open>
  A remark on the edge of the monotonicity statement above.  A byte rate of 2^63,
  which \<open>receiveRTP\<close> cannot store (it stores a third of a \<open>uint64\<close>), is
  where the doubling would wrap to 0, giving a smaller estimate at loss 0 than at
  loss 1/2.
\<close>

lemma sendREMB_bw_doubling_wraps:
  "sendREMB_bw impl 9223372036854775808 (Fin 0) = 30000 \<and>
   sendREMB_bw impl 9223372036854775808 (Fin (1 / 2)) = 100000"
proof -
  have a: "round_f64 9223372036854775808 = Fin 9223372036854775808" by (simp add: f64_eval)
  have b: "round_f64 4611686018427387904 = Fin 4611686018427387904" by (simp add: f64_eval)
  show ?thesis
    by (simp add: sendREMB_bw_def sendREMB_proposal_def sendREMB_clamp_def f64_le_def f64_0_1_value
        uint64_to_f64_def f64_to_uint64_def rembLowBW_def rembHighBW_def round_f64_half a b)
qed

subsection \<open>Close with the keyframe loops running\<close>

lemmas sys_eval = step_def wg_Done_def write_PLI_def closing_video_publisher_def
  closing_video_publisher_with_track_def video_publisher_def
  sendPLI_def AnswerPublish_flags_def live_example_def newWebRTCTransport_def make_chan_def
  Close_body_def close_chan_def enabled_def all_choices_def upt_conv_Cons

text \<open>
  C9.  The code does not keep this claim.  Take the publisher with video on which
  no track has arrived.  The goroutine of \<open>sendPLI\<close> runs \<open>wg.Add(1)\<close> and
  takes the ticker case, so it stands at \<open>t.pliCh <- 1\<close>; \<open>Close\<close> then closes
  the connection and \<open>stopCh\<close>.  Now nothing can move: the send has no receiver
  and is outside the select, so the goroutine never sees \<open>stopCh\<close> and never
  calls \<open>wg.Done()\<close>, and \<open>Close\<close> stays in \<open>wg.Wait()\<close> with the counter
  at 1.  With a track, the same state is reached when the \<open>OnTrack\<close> goroutine
  takes the \<open>stopCh\<close> case of its select and leaves.
\<close>

theorem Close_deadlock:
  "map_option procs (run closing_video_publisher [(0, Proceed), (0, Tick), (1, Proceed), (1, Proceed)])
     = Some [SendPLI_send, Closing 2] \<and>
   map_option (wg \<circ> shared) (run closing_video_publisher [(0, Proceed), (0, Tick), (1, Proceed), (1, Proceed)])
     = Some 1 \<and>
   map_option enabled (run closing_video_publisher [(0, Proceed), (0, Tick), (1, Proceed), (1, Proceed)])
     = Some [] \<and>
   map_option procs (run closing_video_publisher_with_track
       [(0, Tick), (2, Proceed), (2, Proceed), (1, Stop)])
     = Some [SendPLI_send, Exited, Closing 2] \<and>
   map_option enabled (run closing_video_publisher_with_track
       [(0, Tick), (2, Proceed), (2, Proceed), (1, Stop)])
     = Some []"
  by (simp add: sys_eval)

text \<open>
  C2.  The code does not keep step (3) of this claim.  The statements of \<open>Close\<close>
  stand in the claimed order (\<open>Close_exact\<close>), and step (3) is \<open>wg.Wait()\<close>:
  it waits until the counter of the wait group is zero.  The goroutine that
  \<open>sendPLI\<close> spawns adds itself to the wait group as its own first statement, not
  before the \<open>go\<close> statement as the loops of \<open>OnTrack\<close>, \<open>pubReceiveRTCP\<close>
  and \<open>subReadRTCP\<close> do.  Take the publisher with video: \<open>sendPLI\<close> has spawned the
  loop, which has not run yet, and the counter is 0.  \<open>Close\<close> runs its five
  statements to the end: step (3) waits for nothing, step (4) closes \<open>rtpCh\<close> and
  \<open>pliCh\<close>, and \<open>Close\<close> has returned while the spawned loop is still before its
  first statement; it has not reported completion.
\<close>

theorem Close_before_loop_registered:
  "sendPLI video_publisher = [SendPLI_start] \<and> wg video_publisher = 0 \<and>
   procs closing_video_publisher = [SendPLI_start, Closing 0] \<and>
   snd (snd (Close video_publisher)) = Completed \<and>
   map_option procs (run closing_video_publisher
      [(1, Proceed), (1, Proceed), (1, Proceed), (1, Proceed), (1, Proceed)])
     = Some [SendPLI_start, Exited] \<and>
   map_option (\<lambda>s. (closed (stopCh (shared s)), closed (rtpCh (shared s)), closed (pliCh (shared s))))
     (run closing_video_publisher
      [(1, Proceed), (1, Proceed), (1, Proceed), (1, Proceed), (1, Proceed)])
     = Some (True, True, True)"
  by (simp add: sys_eval Close_def)

text \<open>
  From there a failure that C9 excludes is a schedule away: the loop starts, takes a
  ticker case and sends on \<open>pliCh\<close>, which \<open>Close\<close> has closed.
\<close>

lemma Close_then_send_on_closed:
  "map_option procs (run closing_video_publisher
      [(1, Proceed), (1, Proceed), (1, Proceed), (1, Proceed), (1, Proceed),
       (0, Proceed), (0, Tick), (0, Proceed)])
   = Some [Panicked SendOnClosedChannel, Exited]"
  by (simp add: sys_eval)

end
